theory Spec2Isabelle
  imports Complex_Main "HOL-Library.Word"
begin

section \<open>Strings as the source uses them\<close>

text \<open>
  Manifest text, URLs and attribute values are JavaScript strings. They are modelled as
  \<open>string\<close> (lists of characters with codes 0..255); the manifests the program reads are
  ASCII. Each helper below is the JavaScript string method of the same name, restricted
  to the way the source calls it.
\<close>

text \<open>\<open>s.split(sep)\<close> for a one-character separator: always at least one piece.\<close>

fun consHead :: "char \<Rightarrow> string list \<Rightarrow> string list" where
  "consHead c [] = [[c]]"
| "consHead c (p # ps) = (c # p) # ps"

fun split :: "char \<Rightarrow> string \<Rightarrow> string list" where
  "split sep [] = [[]]"
| "split sep (c # cs) =
     (if c = sep then [] # split sep cs else consHead c (split sep cs))"

text \<open>\<open>s.startsWith(p)\<close>.\<close>

definition startsWith :: "string \<Rightarrow> string \<Rightarrow> bool" where
  "startsWith s p = (take (length p) s = p)"

text \<open>\<open>s.includes(sub)\<close>: \<open>sub\<close> occurs somewhere in \<open>s\<close>.\<close>

fun includes_str :: "string \<Rightarrow> string \<Rightarrow> bool" where
  "includes_str [] sub = (sub = [])"
| "includes_str (c # cs) sub = (startsWith (c # cs) sub \<or> includes_str cs sub)"

text \<open>
  \<open>s.trim()\<close> removes white space and line terminators at both ends; among the
  characters with codes below 256 these are 9..13, 32 and 160.
\<close>

definition isWhiteSpace :: "char \<Rightarrow> bool" where
  "isWhiteSpace c = (c \<in> {CHR 0x09, CHR 0x0A, CHR 0x0B, CHR 0x0C, CHR 0x0D, CHR 0x20, CHR 0xA0})"

definition trim :: "string \<Rightarrow> string" where
  "trim s = rev (dropWhile isWhiteSpace (rev (dropWhile isWhiteSpace s)))"

text \<open>\<open>s.slice(1, -1)\<close>: without the first and the last character.\<close>

definition slice_1_m1 :: "string \<Rightarrow> string" where
  "slice_1_m1 s = butlast (tl s)"

text \<open>\<open>s.replace(pat, "")\<close> with a string pattern: the first occurrence is removed.\<close>

fun removeFirst :: "string \<Rightarrow> string \<Rightarrow> string" where
  "removeFirst pat [] = []"
| "removeFirst pat (c # cs) =
     (if startsWith (c # cs) pat then drop (length pat) (c # cs)
      else c # removeFirst pat cs)"

text \<open>
  \<open>playlist.split(/\r?\n/)\<close>: the text is cut at every line feed, and a piece that is
  followed by a line feed loses one carriage return at its end.
\<close>

definition stripCR :: "string \<Rightarrow> string" where
  "stripCR s = (if s \<noteq> [] \<and> last s = CHR 0x0D then butlast s else s)"

definition splitLines :: "string \<Rightarrow> string list" where
  "splitLines s = (let ps = split (CHR 0x0A) s in map stripCR (butlast ps) @ [last ps])"

section \<open>Stream selection (helper.ts)\<close>

text \<open>
  JavaScript numbers: \<open>NaN\<close>, the two infinities, and the finite doubles, each given by
  its exact value. The two zeros are one value here; \<open>==\<close> does not tell them apart and
  the selection below reads the result of \<open>Math.max\<close> through \<open>==\<close> only.
\<close>

datatype number = NaN | NegInfinity | Finite rat | PosInfinity

text \<open>
  What \<open>stream.bandwidth\<close> holds when the selection runs: a number (what the interface
  \<open>Stream\<close> declares), a string (what \<open>parseAttributes\<close> stores under \<open>bandwidth\<close>),
  or \<open>undefined\<close> (the object has no such property, as when \<open>BANDWIDTH\<close> is the first
  attribute of the line and is stored under \<open>#ext-x-stream-inf:bandwidth\<close>).
\<close>

datatype jsvalue = Undefined | Number number | Str string

record Stream =
  programId :: int
  bandwidth :: jsvalue
  subtitles :: string
  uri :: string

text \<open>
  The conversion to a number that \<open>Math.max\<close> and \<open>==\<close> apply. \<open>undefined\<close> becomes
  \<open>NaN\<close>. The conversion of a string is the language's, not the repository's: it is the
  parameter \<open>StringToNumber\<close>, which also rounds to the nearest double.
\<close>

definition toNumber :: "(string \<Rightarrow> number) \<Rightarrow> jsvalue \<Rightarrow> number" where
  "toNumber StringToNumber v =
     (case v of Undefined \<Rightarrow> NaN | Number n \<Rightarrow> n | Str s \<Rightarrow> StringToNumber s)"

text \<open>The order \<open><=\<close> of two numbers; it is false when either is \<open>NaN\<close>.\<close>

fun lessEq :: "number \<Rightarrow> number \<Rightarrow> bool" where
  "lessEq NaN y = False"
| "lessEq x NaN = False"
| "lessEq NegInfinity y = True"
| "lessEq x PosInfinity = True"
| "lessEq (Finite a) (Finite b) = (a \<le> b)"
| "lessEq PosInfinity y = False"
| "lessEq x NegInfinity = False"

text \<open>
  \<open>Math.max(...xs)\<close>: \<open>NaN\<close> as soon as one argument is \<open>NaN\<close>, \<open>-Infinity\<close> for no
  arguments, the largest argument otherwise.
\<close>

definition maxNumber :: "number \<Rightarrow> number \<Rightarrow> number" where
  "maxNumber x y = (if x = NaN \<or> y = NaN then NaN else if lessEq x y then y else x)"

fun mathMax :: "number list \<Rightarrow> number" where
  "mathMax [] = NegInfinity"
| "mathMax (x # xs) = maxNumber x (mathMax xs)"

text \<open>
  \<open>v == y\<close> for a number \<open>y\<close>: \<open>undefined\<close> equals no number, a string is converted
  first, and \<open>NaN\<close> equals nothing, itself included.
\<close>

definition numberEquals :: "number \<Rightarrow> number \<Rightarrow> bool" where
  "numberEquals x y = (x \<noteq> NaN \<and> y \<noteq> NaN \<and> x = y)"

definition looseEquals :: "(string \<Rightarrow> number) \<Rightarrow> jsvalue \<Rightarrow> number \<Rightarrow> bool" where
  "looseEquals StringToNumber v y =
     (case v of
        Undefined \<Rightarrow> False
      | Number x \<Rightarrow> numberEquals x y
      | Str s \<Rightarrow> numberEquals (StringToNumber s) y)"

text \<open>\<open>streams.filter(...)[0]\<close> is \<open>undefined\<close>, here \<open>None\<close>, when nothing passes the filter.\<close>

definition getHighestBandwidthStream :: "(string \<Rightarrow> number) \<Rightarrow> Stream list \<Rightarrow> Stream option" where
  "getHighestBandwidthStream StringToNumber streams =
     (let maxBandwidth = mathMax (map (\<lambda>stream. toNumber StringToNumber (bandwidth stream)) streams)
      in case filter (\<lambda>stream. looseEquals StringToNumber (bandwidth stream) maxBandwidth) streams of
           [] \<Rightarrow> None
         | s # _ \<Rightarrow> Some s)"

section \<open>Media playlists (helper.ts)\<close>

datatype error = TypeError | DownloadError | DecryptionError | IOError

text \<open>
  The key object built by \<open>parseKey\<close>. Its fourth field \<open>ivasDec\<close> holds
  \<open>parseInt(iv, 16)\<close>, a floating-point number that no code of the repository reads and
  whose computation cannot throw; it is left out.
\<close>

record Key =
  name :: string
  uri :: string
  iv :: string

text \<open>
  \<open>const [keyName, value] = part.split("=")\<close>: the first piece and, when there is one,
  the second; \<open>None\<close> is JavaScript's \<open>undefined\<close>.
\<close>

definition destructure :: "string \<Rightarrow> string \<times> string option" where
  "destructure part =
     (let ps = split (CHR ''='') part
      in (hd ps, if 1 < length ps then Some (ps ! 1) else None))"

text \<open>
  One round of the loop of \<open>parseKey\<close>. \<open>value.trim()\<close> throws a TypeError when
  \<open>value\<close> is undefined, and \<open>uriParts[5].slice(25)\<close> throws a TypeError when the URI
  has fewer than six pieces.
\<close>

definition parseKeyPart :: "Key \<Rightarrow> string \<Rightarrow> error + Key" where
  "parseKeyPart k part =
     (case destructure part of (keyName, value) \<Rightarrow>
        if trim keyName = ''URI'' then
          (case value of
             None \<Rightarrow> Inl TypeError
           | Some v \<Rightarrow>
               let u = slice_1_m1 (trim v); uriParts = split (CHR ''/'') u
               in if 5 < length uriParts
                  then Inr (k\<lparr>uri := u, name := drop 25 (uriParts ! 5)\<rparr>)
                  else Inl TypeError)
        else if trim keyName = ''IV'' then
          (case value of
             None \<Rightarrow> Inl TypeError
           | Some v \<Rightarrow> Inr (k\<lparr>iv := drop 2 (trim v)\<rparr>))
        else Inr k)"

fun parseKeyParts :: "Key \<Rightarrow> string list \<Rightarrow> error + Key" where
  "parseKeyParts k [] = Inr k"
| "parseKeyParts k (part # parts) =
     (case parseKeyPart k part of
        Inl e \<Rightarrow> Inl e
      | Inr k' \<Rightarrow> parseKeyParts k' parts)"

definition parseKey :: "string \<Rightarrow> error + Key" where
  "parseKey line = parseKeyParts \<lparr>name = [], uri = [], iv = []\<rparr> (split (CHR '','') line)"

text \<open>
  A segment. Its field \<open>key\<close> is a reference to a key object, not a copy: the key
  objects that \<open>parsePlaylist\<close> keeps are those of its array \<open>keys\<close>, each pushed once
  and never changed, so the reference is modelled as the position of the object in
  \<open>keys\<close>. \<open>None\<close> is \<open>undefined\<close>.
\<close>

record MediaSegment =
  url :: string
  index :: string
  key :: "nat option"

record Playlist =
  segments :: "MediaSegment list"
  keys :: "Key list"

definition excluded :: "string \<Rightarrow> bool" where
  "excluded s = (includes_str s ''099_Pluto_TV_OandO'' \<or> includes_str s ''829_Pluto_TV_OandO'')"

text \<open>
  \<open>url.split("-").pop()?.replace(".ts", "") || ""\<close>: the last piece is always there,
  and \<open>|| ""\<close> leaves every string as it is.
\<close>

definition segmentIndex :: "string \<Rightarrow> string" where
  "segmentIndex u = removeFirst ''.ts'' (last (split (CHR ''-'') u))"

text \<open>\<open>keys[keys.length - 1]\<close>: the newest key object, undefined while there is none.\<close>

definition latestKey :: "Key list \<Rightarrow> nat option" where
  "latestKey ks = (if ks = [] then None else Some (length ks - 1))"

text \<open>
  The body of the loop of \<open>parsePlaylist\<close> at line number \<open>i\<close>. When an
  \<open>#EXTINF:\<close> line is the last line, \<open>lines[index + 1]\<close> is undefined and
  \<open>.trim()\<close> throws.
\<close>

definition parsePlaylistLine :: "string list \<Rightarrow> nat \<Rightarrow> Playlist \<Rightarrow> error + Playlist" where
  "parsePlaylistLine lines i st =
     (let line = lines ! i in
      if startsWith line ''#EXT-X-KEY'' then
        (case parseKey line of
           Inl e \<Rightarrow> Inl e
         | Inr k \<Rightarrow>
             if \<not> excluded (uri k) then Inr (st\<lparr>keys := keys st @ [k]\<rparr>) else Inr st)
      else if startsWith line ''#EXTINF:'' then
        (if i + 1 < length lines then
           (let u = trim (lines ! (i + 1)) in
            if \<not> excluded u
            then Inr (st\<lparr>segments := segments st @
                        [\<lparr>url = u, index = segmentIndex u, key = latestKey (keys st)\<rparr>]\<rparr>)
            else Inr st)
         else Inl TypeError)
      else Inr st)"

fun parsePlaylistLoop :: "string list \<Rightarrow> nat list \<Rightarrow> Playlist \<Rightarrow> error + Playlist" where
  "parsePlaylistLoop lines [] st = Inr st"
| "parsePlaylistLoop lines (i # is) st =
     (case parsePlaylistLine lines i st of
        Inl e \<Rightarrow> Inl e
      | Inr st' \<Rightarrow> parsePlaylistLoop lines is st')"

definition parsePlaylist :: "string \<Rightarrow> error + Playlist" where
  "parsePlaylist playlist =
     (let lines = splitLines playlist
      in parsePlaylistLoop lines [0..<length lines] \<lparr>segments = [], keys = []\<rparr>)"

section \<open>The earlier parser (DownloadPlaylist.ts)\<close>

text \<open>
  \<open>xs.indexOf(x)\<close>: the position of the first element equal to \<open>x\<close>, or \<open>-1\<close>.
\<close>

fun indexOf :: "'a list \<Rightarrow> 'a \<Rightarrow> int" where
  "indexOf [] x = - 1"
| "indexOf (y # ys) x =
     (if y = x then 0 else (let r = indexOf ys x in if r < 0 then - 1 else r + 1))"

text \<open>
  The loop of \<open>parseM3U8\<close> over the lines that are left. The statements that build the
  key object are, character for character, the body of \<open>parseKey\<close>, so the model calls
  \<open>parseKey\<close>. Every key is pushed; the URL of a segment is looked up through
  \<open>lines.indexOf(line)\<close>; the loop ends at a line that is exactly
  \<open>#EXT-X-DISCONTINUITY\<close>.
\<close>

fun parseM3U8Loop :: "string list \<Rightarrow> string list \<Rightarrow> Playlist \<Rightarrow> error + Playlist" where
  "parseM3U8Loop lines [] st = Inr st"
| "parseM3U8Loop lines (line # rest) st =
     (if startsWith line ''#EXT-X-KEY'' then
        (case parseKey line of
           Inl e \<Rightarrow> Inl e
         | Inr k \<Rightarrow> parseM3U8Loop lines rest (st\<lparr>keys := keys st @ [k]\<rparr>))
      else if startsWith line ''#EXTINF:'' then
        (let j = nat (indexOf lines line + 1) in
         if j < length lines then
           (let u = trim (lines ! j) in
            parseM3U8Loop lines rest
              (st\<lparr>segments := segments st @
                  [\<lparr>url = u, index = segmentIndex u, key = latestKey (keys st)\<rparr>]\<rparr>))
         else Inl TypeError)
      else if line = ''#EXT-X-DISCONTINUITY'' then Inr st
      else parseM3U8Loop lines rest st)"

definition parseM3U8 :: "string \<Rightarrow> error + Playlist" where
  "parseM3U8 playlist =
     (let lines = splitLines playlist
      in parseM3U8Loop lines lines \<lparr>segments = [], keys = []\<rparr>)"

section \<open>Master playlists (helper.ts)\<close>

text \<open>
  \<open>parseAttributes\<close> returns an untyped object; it is modelled as a map from property
  names to strings.
\<close>

type_synonym attributes = "string \<rightharpoonup> string"

text \<open>\<open>toLowerCase\<close> on one character with a code below 256.\<close>

definition toLowerCase :: "char \<Rightarrow> char" where
  "toLowerCase c =
     (let n = of_char c :: nat in
      if 65 \<le> n \<and> n \<le> 90 then char_of (n + 32)
      else if 192 \<le> n \<and> n \<le> 214 then char_of (n + 32)
      else if 216 \<le> n \<and> n \<le> 222 then char_of (n + 32)
      else c)"

fun parseAttributesLoop :: "attributes \<Rightarrow> string list \<Rightarrow> error + attributes" where
  "parseAttributesLoop a [] = Inr a"
| "parseAttributesLoop a (part # parts) =
     (case destructure part of (k, value) \<Rightarrow>
        (case value of
           None \<Rightarrow> Inl TypeError
         | Some v \<Rightarrow>
             parseAttributesLoop
               (a(map toLowerCase (trim k) \<mapsto> filter (\<lambda>c. c \<noteq> CHR 0x22) (trim v))) parts))"

definition parseAttributes :: "string \<Rightarrow> error + attributes" where
  "parseAttributes line = parseAttributesLoop Map.empty (split (CHR '','') line)"

record M3UPlaylist =
  media :: "attributes list"
  streams :: "attributes list"

text \<open>
  The loop of \<open>parseMaster\<close>. The URI of a stream is read at
  \<open>lines[lines.indexOf(line) + 1]\<close>; when that is past the end, \<open>.trim()\<close> throws.
\<close>

fun parseMasterLoop :: "string list \<Rightarrow> string list \<Rightarrow> M3UPlaylist \<Rightarrow> error + M3UPlaylist" where
  "parseMasterLoop lines [] pl = Inr pl"
| "parseMasterLoop lines (line # rest) pl =
     (let trimmedLine = trim line in
      if startsWith trimmedLine ''#EXTM3U'' then parseMasterLoop lines rest pl
      else if startsWith trimmedLine ''#EXT-X-MEDIA'' then
        (case parseAttributes trimmedLine of
           Inl e \<Rightarrow> Inl e
         | Inr m \<Rightarrow> parseMasterLoop lines rest (pl\<lparr>media := media pl @ [m]\<rparr>))
      else if startsWith trimmedLine ''#EXT-X-STREAM-INF'' then
        (case parseAttributes trimmedLine of
           Inl e \<Rightarrow> Inl e
         | Inr stream \<Rightarrow>
             (let j = nat (indexOf lines line + 1) in
              if j < length lines
              then parseMasterLoop lines rest
                     (pl\<lparr>streams := streams pl @ [stream(''uri'' \<mapsto> trim (lines ! j))]\<rparr>)
              else Inl TypeError))
      else parseMasterLoop lines rest pl)"

definition parseMaster :: "string \<Rightarrow> error + M3UPlaylist" where
  "parseMaster m3uContent =
     (let lines = split (CHR 0x0A) m3uContent
      in parseMasterLoop lines lines \<lparr>media = [], streams = []\<rparr>)"

section \<open>Decrypting the segments of a playlist (helper.ts)\<close>

type_synonym bytes = "8 word list"

text \<open>\<open>buf2hex\<close>: two lower-case hexadecimal digits for every byte.\<close>

definition hexDigit :: "nat \<Rightarrow> char" where
  "hexDigit n = ''0123456789abcdef'' ! n"

definition buf2hex :: "bytes \<Rightarrow> string" where
  "buf2hex buffer = concat (map (\<lambda>x. [hexDigit (unat x div 16), hexDigit (unat x mod 16)]) buffer)"

text \<open>
  \<open>Buffer.from(s, "hex")\<close>: pairs of hexadecimal digits become bytes; decoding stops at
  the first pair that is not two hexadecimal digits.
\<close>

definition hexValue :: "char \<Rightarrow> nat option" where
  "hexValue c =
     (let n = of_char c :: nat in
      if 48 \<le> n \<and> n \<le> 57 then Some (n - 48)
      else if 97 \<le> n \<and> n \<le> 102 then Some (n - 87)
      else if 65 \<le> n \<and> n \<le> 70 then Some (n - 55)
      else None)"

fun bufferFromHex :: "string \<Rightarrow> bytes" where
  "bufferFromHex (a # b # rest) =
     (case (hexValue a, hexValue b) of
        (Some x, Some y) \<Rightarrow> of_nat (16 * x + y) # bufferFromHex rest
      | _ \<Rightarrow> [])"
| "bufferFromHex _ = []"

text \<open>
  \<open>url.split(/720p(?:DRM)?\//)\<close>: the text is cut at every occurrence of \<open>720p/\<close> or
  \<open>720pDRM/\<close>, found from left to right; \<open>cur\<close> is the piece being read.
\<close>

fun splitAt720p :: "string \<Rightarrow> string \<Rightarrow> string list" where
  "splitAt720p cur [] = [cur]"
| "splitAt720p cur (c # cs) =
     (if startsWith (c # cs) ''720pDRM/'' then cur # splitAt720p [] (drop 7 cs)
      else if startsWith (c # cs) ''720p/'' then cur # splitAt720p [] (drop 4 cs)
      else splitAt720p (cur @ [c]) cs)"

text \<open>\<open>xs.join("/")\<close>.\<close>

fun joinSlash :: "string list \<Rightarrow> string" where
  "joinSlash [] = []"
| "joinSlash [x] = x"
| "joinSlash (x # y # ys) = x @ CHR ''/'' # joinSlash (y # ys)"

definition getURLBaseDir :: "string \<Rightarrow> string" where
  "getURLBaseDir u =
     (let parts = splitAt720p [] u in
      if length parts < 2 \<or> parts ! 1 = [] then []
      else joinSlash (butlast (split (CHR ''/'') (parts ! 1))))"

text \<open>
  What the program does to the outside, in the order it does it. The two calls of
  \<open>axios.get\<close> in \<open>ProcessPlaylist\<close> are told apart: \<open>GetSegment\<close> is the request
  for a segment body, \<open>GetKey\<close> the request for key bytes.
\<close>

datatype event =
    Mkdir string
  | GetSegment string
  | GetKey string
  | WriteFile string bytes

text \<open>The files on disk, by path, and the events so far.\<close>

record world =
  files :: "string \<rightharpoonup> bytes"
  trace :: "event list"

text \<open>
  The libraries and the network, which are not code of the repository, are parameters:
  \<open>httpGet\<close> is the body that \<open>axios.get\<close> resolves to (\<open>None\<close>: the request is
  rejected), \<open>pathJoin\<close> is \<open>join\<close> of node:path, \<open>mkdirOk\<close> and \<open>writeOk\<close> say
  whether \<open>mkdir\<close> and \<open>writeFile\<close> succeed at a path, and \<open>decipher key iv data\<close>
  is AES-128-CBC decryption (\<open>None\<close>: \<open>createDecipheriv\<close> or \<open>final\<close> throws).
\<close>

record env =
  httpGet :: "string \<Rightarrow> bytes option"
  pathJoin :: "string list \<Rightarrow> string"
  mkdirOk :: "string \<Rightarrow> bool"
  writeOk :: "string \<Rightarrow> bool"
  decipher :: "bytes \<Rightarrow> bytes \<Rightarrow> bytes \<Rightarrow> bytes option"

definition emit :: "event \<Rightarrow> world \<Rightarrow> world" where
  "emit e w = w\<lparr>trace := trace w @ [e]\<rparr>"

text \<open>
  \<open>decryptFileToFile\<close>: decrypt, then write; whatever is thrown is logged and thrown
  again. The result is the error thrown, if any, and the world afterwards.
\<close>

definition decryptFileToFile :: "env \<Rightarrow> bytes \<Rightarrow> string \<Rightarrow> bytes \<Rightarrow> bytes \<Rightarrow> world \<Rightarrow> error option \<times> world" where
  "decryptFileToFile E file outputPath k v w =
     (case decipher E k v file of
        None \<Rightarrow> (Some DecryptionError, w)
      | Some decryptedData \<Rightarrow>
          if writeOk E outputPath
          then (None, emit (WriteFile outputPath decryptedData)
                        (w\<lparr>files := (files w)(outputPath \<mapsto> decryptedData)\<rparr>))
          else (Some IOError, w))"

text \<open>
  The directory and the file a segment is written to; \<open>k\<close> is the key object the
  segment refers to.
\<close>

definition segmentDirectory :: "env \<Rightarrow> string \<Rightarrow> Key \<Rightarrow> MediaSegment \<Rightarrow> string" where
  "segmentDirectory E ShowName k segment =
     pathJoin E [''./'', ShowName, name k, getURLBaseDir (url segment)]"

definition segmentPath :: "env \<Rightarrow> string \<Rightarrow> Key \<Rightarrow> MediaSegment \<Rightarrow> string" where
  "segmentPath E ShowName k segment =
     pathJoin E [segmentDirectory E ShowName k segment, last (split (CHR ''/'') (url segment))]"

text \<open>
  One round of the loop of \<open>ProcessPlaylist\<close>; \<open>ks\<close> are the key objects the segments
  refer to. Reading \<open>segment.key.name\<close> throws a TypeError when \<open>segment.key\<close> is
  undefined. The statements follow the source's order: \<open>mkdir\<close>, the request for the
  segment, the request for the key, the two buffers, and only then the test whether the
  file exists.
\<close>

definition processSegment :: "env \<Rightarrow> string \<Rightarrow> Key list \<Rightarrow> MediaSegment \<Rightarrow> world \<Rightarrow> error option \<times> world" where
  "processSegment E ShowName ks segment w =
     (case key segment of
        None \<Rightarrow> (Some TypeError, w)
      | Some r \<Rightarrow>
          (let k = ks ! r;
               Directory = segmentDirectory E ShowName k segment;
               w1 = emit (Mkdir Directory) w
           in if \<not> mkdirOk E Directory then (Some IOError, w1)
              else
                (let w2 = emit (GetSegment (url segment)) w1 in
                 case httpGet E (url segment) of
                   None \<Rightarrow> (Some DownloadError, w2)
                 | Some VCSegment \<Rightarrow>
                     (let w3 = emit (GetKey (uri k)) w2 in
                      case httpGet E (uri k) of
                        None \<Rightarrow> (Some DownloadError, w3)
                      | Some keyResponse \<Rightarrow>
                          (let k16 = bufferFromHex (buf2hex keyResponse);
                               v = bufferFromHex (iv k);
                               outputPath = segmentPath E ShowName k segment
                           in if files w3 outputPath \<noteq> None then (None, w3)
                              else decryptFileToFile E VCSegment outputPath k16 v w3)))))"

fun processSegments :: "env \<Rightarrow> string \<Rightarrow> Key list \<Rightarrow> MediaSegment list \<Rightarrow> world \<Rightarrow> error option \<times> world" where
  "processSegments E ShowName ks [] w = (None, w)"
| "processSegments E ShowName ks (segment # rest) w =
     (case processSegment E ShowName ks segment w of
        (Some e, w') \<Rightarrow> (Some e, w')
      | (None, w') \<Rightarrow> processSegments E ShowName ks rest w')"

definition ProcessPlaylist :: "env \<Rightarrow> string \<Rightarrow> string \<Rightarrow> world \<Rightarrow> error option \<times> world" where
  "ProcessPlaylist E playlist ShowName w =
     (case parsePlaylist playlist of
        Inl e \<Rightarrow> (Some e, w)
      | Inr p \<Rightarrow> processSegments E ShowName (keys p) (segments p) w)"

section \<open>Stream selection returns the first stream of maximal bandwidth\<close>

lemma lessEq_refl: "x \<noteq> NaN \<Longrightarrow> lessEq x x"
  by (cases x) auto

lemma lessEq_trans: "lessEq x y \<Longrightarrow> lessEq y z \<Longrightarrow> lessEq x z"
  by (cases x; cases y; cases z) auto

lemma lessEq_total: "x \<noteq> NaN \<Longrightarrow> y \<noteq> NaN \<Longrightarrow> lessEq x y \<or> lessEq y x"
  by (cases x; cases y) auto

lemma lessEq_NegInfinity: "x \<noteq> NaN \<Longrightarrow> lessEq NegInfinity x"
  by (cases x) auto

lemma looseEquals_toNumber:
  "looseEquals conv v y = numberEquals (toNumber conv v) y"
  by (cases v) (auto simp: looseEquals_def toNumber_def numberEquals_def)

lemma mathMax_NaN: "NaN \<in> set xs \<Longrightarrow> mathMax xs = NaN"
  by (induction xs) (auto simp: maxNumber_def)

lemma mathMax_bound:
  "NaN \<notin> set xs \<Longrightarrow> mathMax xs \<noteq> NaN \<and> (\<forall>x\<in>set xs. lessEq x (mathMax xs))"
proof (induction xs)
  case Nil
  then show ?case by simp
next
  case (Cons a xs)
  then have a: "a \<noteq> NaN" and m: "mathMax xs \<noteq> NaN"
    and b: "\<forall>x\<in>set xs. lessEq x (mathMax xs)" by auto
  show ?case
  proof (cases "lessEq a (mathMax xs)")
    case True
    with a m b show ?thesis by (simp add: maxNumber_def)
  next
    case False
    with lessEq_total [OF a m] have "lessEq (mathMax xs) a" by simp
    with b have "\<forall>x\<in>set xs. lessEq x a" using lessEq_trans by blast
    with False a m show ?thesis by (simp add: maxNumber_def lessEq_refl)
  qed
qed

lemma mathMax_attained: "xs \<noteq> [] \<Longrightarrow> NaN \<notin> set xs \<Longrightarrow> mathMax xs \<in> set xs"
proof (induction xs)
  case Nil
  then show ?case by simp
next
  case (Cons a xs)
  show ?case
  proof (cases "xs = []")
    case True
    with Cons.prems show ?thesis by (cases a) (auto simp: maxNumber_def)
  next
    case False
    with Cons have "mathMax xs \<in> set xs" by simp
    with Cons.prems show ?thesis by (auto simp: maxNumber_def)
  qed
qed

lemma getHighest_numeric:
  assumes ne: "ss \<noteq> []"
    and nn: "\<forall>s\<in>set ss. toNumber conv (bandwidth s) \<noteq> NaN"
  shows "\<exists>i<length ss. getHighestBandwidthStream conv ss = Some (ss ! i)
            \<and> (\<forall>j<length ss. lessEq (toNumber conv (bandwidth (ss ! j)))
                                   (toNumber conv (bandwidth (ss ! i))))
            \<and> (\<forall>j<i. toNumber conv (bandwidth (ss ! j)) \<noteq> toNumber conv (bandwidth (ss ! i)))"
proof -
  let ?v = "\<lambda>s. toNumber conv (bandwidth s)"
  let ?m = "mathMax (map ?v ss)"
  let ?P = "\<lambda>s. looseEquals conv (bandwidth s) ?m"
  from nn have nan: "NaN \<notin> set (map ?v ss)" by auto
  from mathMax_bound [OF nan] have m: "?m \<noteq> NaN" and le: "\<And>t. t \<in> set ss \<Longrightarrow> lessEq (?v t) ?m"
    by auto
  from ne mathMax_attained [OF _ nan] have "?m \<in> set (map ?v ss)" by simp
  then obtain s where s: "s \<in> set ss" "?v s = ?m" by auto
  have P: "\<And>t. ?P t \<longleftrightarrow> ?v t = ?m"
    using m by (auto simp: looseEquals_toNumber numberEquals_def)
  from s P [of s] have "filter ?P ss \<noteq> []" by (auto simp: filter_empty_conv)
  then obtain y ys where f: "filter ?P ss = y # ys" by (cases "filter ?P ss") auto
  then obtain us vs where d: "ss = us @ y # vs" "\<forall>u\<in>set us. \<not> ?P u" "?P y"
    by (auto simp: filter_eq_Cons_iff)
  from d(3) P [of y] have ym: "?v y = ?m" by blast
  have yi: "ss ! length us = y" using d(1) by simp
  have "getHighestBandwidthStream conv ss = Some (ss ! length us)"
    using f yi by (simp add: getHighestBandwidthStream_def)
  moreover have "length us < length ss" using d(1) by simp
  moreover have "\<forall>j<length ss. lessEq (?v (ss ! j)) (?v (ss ! length us))"
    using le yi ym by (metis nth_mem)
  moreover have "\<forall>j<length us. ?v (ss ! j) \<noteq> ?v (ss ! length us)"
  proof (intro allI impI)
    fix j assume j: "j < length us"
    then have e: "ss ! j = us ! j" using d(1) by (simp add: nth_append)
    from j have "us ! j \<in> set us" by simp
    with d(2) P [of "us ! j"] have "?v (us ! j) \<noteq> ?m" by blast
    then show "?v (ss ! j) \<noteq> ?v (ss ! length us)" using e yi ym by simp
  qed
  ultimately show ?thesis by blast
qed

lemma getHighest_NaN:
  assumes "s \<in> set ss" and "toNumber conv (bandwidth s) = NaN"
  shows "getHighestBandwidthStream conv ss = None"
proof -
  from assms have "NaN \<in> set (map (\<lambda>s. toNumber conv (bandwidth s)) ss)" by force
  then have "mathMax (map (\<lambda>s. toNumber conv (bandwidth s)) ss) = NaN" by (rule mathMax_NaN)
  then show ?thesis
    by (simp add: getHighestBandwidthStream_def looseEquals_toNumber numberEquals_def)
qed

text \<open>
  The selection returns nothing for a list that is not empty when a bandwidth is
  missing: with one stream whose \<open>bandwidth\<close> is \<open>undefined\<close>, \<open>Math.max\<close> is \<open>NaN\<close>
  and no stream passes the filter, whatever the conversion of strings gives.
\<close>

theorem getHighestBandwidthStream_NaN_counterexample:
  "\<forall>StringToNumber. getHighestBandwidthStream StringToNumber
     [\<lparr>programId = 1, bandwidth = Undefined, subtitles = ''subs'', uri = ''low/playlist.m3u8''\<rparr>,
      \<lparr>programId = 1, bandwidth = Str ''1200000'', subtitles = ''subs'', uri = ''high/playlist.m3u8''\<rparr>]
   = None"
  by (simp add: getHighestBandwidthStream_def looseEquals_def toNumber_def numberEquals_def maxNumber_def)

text \<open>
  Claim C5, amended. For every non-empty list of streams none of whose bandwidths
  converts to \<open>NaN\<close>, \<open>getHighestBandwidthStream\<close> returns the stream at the least
  position whose bandwidth, converted to a number, is the maximum: no stream has a larger
  number, and every stream before it has a different one. Bandwidths are compared as
  numbers after conversion, so two that convert to the same number tie. When some
  bandwidth is \<open>undefined\<close> or converts to \<open>NaN\<close>, the result is \<open>undefined\<close>. For the
  numbers 500000, 1200000, 1200000, 300000 the result is the stream at position 1.
\<close>

theorem getHighestBandwidthStream_first_max:
  "(ss \<noteq> [] \<and> (\<forall>s\<in>set ss. toNumber conv (bandwidth s) \<noteq> NaN) \<longrightarrow>
      (\<exists>i<length ss. getHighestBandwidthStream conv ss = Some (ss ! i)
          \<and> (\<forall>j<length ss. lessEq (toNumber conv (bandwidth (ss ! j)))
                                 (toNumber conv (bandwidth (ss ! i))))
          \<and> (\<forall>j<i. toNumber conv (bandwidth (ss ! j)) \<noteq> toNumber conv (bandwidth (ss ! i)))))
   \<and> ((\<exists>s\<in>set ss. toNumber conv (bandwidth s) = NaN) \<longrightarrow>
        getHighestBandwidthStream conv ss = None)
   \<and> (map (\<lambda>s. toNumber conv (bandwidth s)) [s0, s1, s2, s3]
         = [Finite 500000, Finite 1200000, Finite 1200000, Finite 300000] \<longrightarrow>
        getHighestBandwidthStream conv [s0, s1, s2, s3] = Some s1)"
proof (intro conjI impI)
  assume "ss \<noteq> [] \<and> (\<forall>s\<in>set ss. toNumber conv (bandwidth s) \<noteq> NaN)"
  then show "\<exists>i<length ss. getHighestBandwidthStream conv ss = Some (ss ! i)
          \<and> (\<forall>j<length ss. lessEq (toNumber conv (bandwidth (ss ! j)))
                                 (toNumber conv (bandwidth (ss ! i))))
          \<and> (\<forall>j<i. toNumber conv (bandwidth (ss ! j)) \<noteq> toNumber conv (bandwidth (ss ! i)))"
    using getHighest_numeric by blast
next
  assume "\<exists>s\<in>set ss. toNumber conv (bandwidth s) = NaN"
  then show "getHighestBandwidthStream conv ss = None" using getHighest_NaN by blast
next
  assume "map (\<lambda>s. toNumber conv (bandwidth s)) [s0, s1, s2, s3]
         = [Finite 500000, Finite 1200000, Finite 1200000, Finite 300000]"
  then show "getHighestBandwidthStream conv [s0, s1, s2, s3] = Some s1"
    by (simp add: getHighestBandwidthStream_def looseEquals_toNumber numberEquals_def maxNumber_def)
qed

theorem getHighestBandwidthStream_first_max_witness:
  "\<forall>StringToNumber.
     getHighestBandwidthStream StringToNumber
       [\<lparr>programId = 1, bandwidth = Number (Finite 500000), subtitles = ''subs'', uri = ''a.m3u8''\<rparr>,
        \<lparr>programId = 1, bandwidth = Number (Finite 1200000), subtitles = ''subs'', uri = ''b.m3u8''\<rparr>,
        \<lparr>programId = 1, bandwidth = Number (Finite 1200000), subtitles = ''subs'', uri = ''c.m3u8''\<rparr>,
        \<lparr>programId = 1, bandwidth = Number (Finite 300000), subtitles = ''subs'', uri = ''d.m3u8''\<rparr>]
     = Some \<lparr>programId = 1, bandwidth = Number (Finite 1200000), subtitles = ''subs'', uri = ''b.m3u8''\<rparr>
   \<and> getHighestBandwidthStream StringToNumber
       [\<lparr>programId = 1, bandwidth = Number (Finite 500000), subtitles = ''subs'', uri = ''a.m3u8''\<rparr>,
        \<lparr>programId = 1, bandwidth = Undefined, subtitles = ''subs'', uri = ''b.m3u8''\<rparr>]
     = None"
proof
  fix conv :: "string \<Rightarrow> number"
  let ?s0 = "\<lparr>programId = 1, bandwidth = Number (Finite 500000), subtitles = ''subs'', uri = ''a.m3u8''\<rparr>"
  let ?s1 = "\<lparr>programId = 1, bandwidth = Number (Finite 1200000), subtitles = ''subs'', uri = ''b.m3u8''\<rparr>"
  let ?s2 = "\<lparr>programId = 1, bandwidth = Number (Finite 1200000), subtitles = ''subs'', uri = ''c.m3u8''\<rparr>"
  let ?s3 = "\<lparr>programId = 1, bandwidth = Number (Finite 300000), subtitles = ''subs'', uri = ''d.m3u8''\<rparr>"
  let ?n = "\<lparr>programId = 1, bandwidth = Undefined, subtitles = ''subs'', uri = ''b.m3u8''\<rparr>"
  have v: "map (\<lambda>s. toNumber conv (bandwidth s)) [?s0, ?s1, ?s2, ?s3]
         = [Finite 500000, Finite 1200000, Finite 1200000, Finite 300000]"
    by (simp add: toNumber_def)
  have ne: "[?s0, ?s1, ?s2, ?s3] \<noteq> [] \<and>
      (\<forall>s\<in>set [?s0, ?s1, ?s2, ?s3]. toNumber conv (bandwidth s) \<noteq> NaN)"
    by (simp add: toNumber_def)
  have nan: "\<exists>s\<in>set [?s0, ?n]. toNumber conv (bandwidth s) = NaN"
    by (simp add: toNumber_def)
  from getHighestBandwidthStream_first_max [of "[?s0, ?s1, ?s2, ?s3]" conv ?s0 ?s1 ?s2 ?s3] v ne
  have a: "getHighestBandwidthStream conv [?s0, ?s1, ?s2, ?s3] = Some ?s1" by blast
  from getHighestBandwidthStream_first_max [of "[?s0, ?n]" conv] nan
  have b: "getHighestBandwidthStream conv [?s0, ?n] = None" by blast
  from a b show "getHighestBandwidthStream conv [?s0, ?s1, ?s2, ?s3] = Some ?s1
      \<and> getHighestBandwidthStream conv [?s0, ?n] = None" by (rule conjI)
qed

section \<open>The loop of parsePlaylist\<close>


lemma parsePlaylistLine_cases:
  assumes "parsePlaylistLine lines i st = Inr st'"
  shows "(startsWith (lines ! i) ''#EXT-X-KEY'' \<and>
            (\<exists>k. parseKey (lines ! i) = Inr k \<and>
               (if excluded (uri k) then st' = st else st' = st\<lparr>keys := keys st @ [k]\<rparr>)))
       \<or> (\<not> startsWith (lines ! i) ''#EXT-X-KEY'' \<and> startsWith (lines ! i) ''#EXTINF:'' \<and>
            Suc i < length lines \<and>
            (if excluded (trim (lines ! Suc i)) then st' = st
             else st' = st\<lparr>segments := segments st @
                    [\<lparr>url = trim (lines ! Suc i), index = segmentIndex (trim (lines ! Suc i)),
                      key = latestKey (keys st)\<rparr>]\<rparr>))
       \<or> (\<not> startsWith (lines ! i) ''#EXT-X-KEY'' \<and> \<not> startsWith (lines ! i) ''#EXTINF:'' \<and> st' = st)"
  using assms
  by (auto simp: parsePlaylistLine_def Let_def split: if_splits sum.splits)



lemma parsePlaylistLine_excluded:
  assumes "parsePlaylistLine lines i st = Inr st'"
    and "\<forall>k\<in>set (keys st). \<not> excluded (uri k)"
    and "\<forall>s\<in>set (segments st). \<not> excluded (url s)"
  shows "(\<forall>k\<in>set (keys st'). \<not> excluded (uri k)) \<and> (\<forall>s\<in>set (segments st'). \<not> excluded (url s))"
  using parsePlaylistLine_cases [OF assms(1)] assms(2,3) by (auto split: if_splits)

lemma parsePlaylistLoop_excluded:
  "parsePlaylistLoop lines is st = Inr st' \<Longrightarrow>
   \<forall>k\<in>set (keys st). \<not> excluded (uri k) \<Longrightarrow>
   \<forall>s\<in>set (segments st). \<not> excluded (url s) \<Longrightarrow>
   (\<forall>k\<in>set (keys st'). \<not> excluded (uri k)) \<and> (\<forall>s\<in>set (segments st'). \<not> excluded (url s))"
proof (induction "is" arbitrary: st)
  case Nil
  then show ?case by simp
next
  case (Cons i "is")
  from Cons.prems(1) obtain st1 where
    s1: "parsePlaylistLine lines i st = Inr st1" and s2: "parsePlaylistLoop lines is st1 = Inr st'"
    by (auto split: sum.splits)
  from parsePlaylistLine_excluded [OF s1 Cons.prems(2,3)] Cons.IH [OF s2] show ?case by blast
qed



lemma parseKeyPart_error: "parseKeyPart k part = Inl e \<Longrightarrow> e = TypeError"
  by (auto simp: parseKeyPart_def Let_def split: prod.splits if_splits option.splits)

lemma parseKeyParts_error: "parseKeyParts k parts = Inl e \<Longrightarrow> e = TypeError"
  by (induction parts arbitrary: k) (auto split: sum.splits dest: parseKeyPart_error)









lemma parseKeyPart_short_URI:
  assumes "destructure part = (kn, Some v)" and "trim kn = ''URI''"
    and "length (split (CHR ''/'') (slice_1_m1 (trim v))) < 6"
  shows "parseKeyPart k part = Inl TypeError"
  using assms by (simp add: parseKeyPart_def Let_def)

lemma parseKeyParts_short_URI:
  assumes "part \<in> set parts" and "\<And>k. parseKeyPart k part = Inl TypeError"
  shows "parseKeyParts k parts = Inl TypeError"
  using assms(1)
proof (induction parts arbitrary: k)
  case Nil
  then show ?case by simp
next
  case (Cons a parts)
  show ?case
  proof (cases "parseKeyPart k a")
    case (Inl e)
    then show ?thesis using parseKeyPart_error [OF Inl] by simp
  next
    case (Inr k')
    with Cons.prems assms(2) [of k] have "part \<in> set parts" by auto
    with Cons.IH Inr show ?thesis by simp
  qed
qed

lemma parsePlaylistLoop_keys_parse:
  "parsePlaylistLoop lines is st = Inr st' \<Longrightarrow> i \<in> set is \<Longrightarrow>
   startsWith (lines ! i) ''#EXT-X-KEY'' \<Longrightarrow> \<exists>k. parseKey (lines ! i) = Inr k"
proof (induction "is" arbitrary: st)
  case Nil
  then show ?case by simp
next
  case (Cons a "is")
  from Cons.prems(1) obtain st1 where
    s1: "parsePlaylistLine lines a st = Inr st1" and s2: "parsePlaylistLoop lines is st1 = Inr st'"
    by (auto split: sum.splits)
  show ?case
  proof (cases "i = a")
    case True
    with parsePlaylistLine_cases [OF s1] Cons.prems(3) show ?thesis by auto
  next
    case False
    with Cons.prems(2) have "i \<in> set is" by simp
    from Cons.IH [OF s2 this Cons.prems(3)] show ?thesis .
  qed
qed

lemma parsePlaylistLine_returns:
  assumes "startsWith (lines ! i) ''#EXT-X-KEY'' \<longrightarrow> parseKey (lines ! i) \<noteq> Inl TypeError"
    and "startsWith (lines ! i) ''#EXTINF:'' \<longrightarrow> Suc i < length lines"
  shows "\<exists>st'. parsePlaylistLine lines i st = Inr st'"
proof (cases "parseKey (lines ! i)")
  case (Inl e)
  with parseKeyParts_error [of _ _ e] have "parseKey (lines ! i) = Inl TypeError"
    by (auto simp: parseKey_def)
  with assms show ?thesis by (auto simp: parsePlaylistLine_def Let_def)
next
  case (Inr k)
  with assms(2) show ?thesis by (auto simp: parsePlaylistLine_def Let_def)
qed

lemma parsePlaylistLoop_returns:
  "\<forall>i\<in>set is.
     (startsWith (lines ! i) ''#EXT-X-KEY'' \<longrightarrow> parseKey (lines ! i) \<noteq> Inl TypeError) \<and>
     (startsWith (lines ! i) ''#EXTINF:'' \<longrightarrow> Suc i < length lines) \<Longrightarrow>
   \<exists>st'. parsePlaylistLoop lines is st = Inr st'"
proof (induction "is" arbitrary: st)
  case Nil
  then show ?case by simp
next
  case (Cons a "is")
  from Cons.prems parsePlaylistLine_returns [of lines a st]
  obtain st1 where "parsePlaylistLine lines a st = Inr st1" by auto
  moreover from Cons.IH [of st1] Cons.prems
  obtain st' where "parsePlaylistLoop lines is st1 = Inr st'" by auto
  ultimately show ?case by simp
qed

text \<open>
  Every reference that \<open>parsePlaylist\<close> returns points to a key object of \<open>keys\<close>, so
  \<open>processSegment\<close> reads \<open>ks ! r\<close> within range.
\<close>

lemma parsePlaylistLine_references:
  assumes "parsePlaylistLine lines i st = Inr st'"
    and "\<forall>s\<in>set (segments st). \<forall>r. key s = Some r \<longrightarrow> r < length (keys st)"
  shows "\<forall>s\<in>set (segments st'). \<forall>r. key s = Some r \<longrightarrow> r < length (keys st')"
  using parsePlaylistLine_cases [OF assms(1)] assms(2)
  by (fastforce simp: latestKey_def less_Suc_eq split: if_splits)

lemma parsePlaylistLoop_references:
  "parsePlaylistLoop lines is st = Inr st' \<Longrightarrow>
   \<forall>s\<in>set (segments st). \<forall>r. key s = Some r \<longrightarrow> r < length (keys st) \<Longrightarrow>
   \<forall>s\<in>set (segments st'). \<forall>r. key s = Some r \<longrightarrow> r < length (keys st')"
proof (induction "is" arbitrary: st)
  case Nil
  then show ?case by simp
next
  case (Cons a "is")
  from Cons.prems(1) obtain st1 where
    s1: "parsePlaylistLine lines a st = Inr st1" and s2: "parsePlaylistLoop lines is st1 = Inr st'"
    by (auto split: sum.splits)
  from Cons.IH [OF s2 parsePlaylistLine_references [OF s1 Cons.prems(2)]] show ?case .
qed

lemma parsePlaylist_references:
  assumes "parsePlaylist playlist = Inr p" and "s \<in> set (segments p)" and "key s = Some r"
  shows "r < length (keys p)"
proof -
  from assms(1) have "parsePlaylistLoop (splitLines playlist) [0..<length (splitLines playlist)]
      \<lparr>segments = [], keys = []\<rparr> = Inr p"
    by (simp add: parsePlaylist_def Let_def)
  from parsePlaylistLoop_references [OF this] assms(2,3) show ?thesis by simp
qed

section \<open>Excluded assets appear neither as keys nor as segments\<close>

text \<open>
  Claim C6. \<open>parsePlaylist\<close> returns whenever every KEY line of the manifest can be
  parsed and no \<open>#EXTINF:\<close> line is the last line; and whenever it returns, no key of
  the returned \<open>keys\<close> has a URI that contains one of the two excluded identifiers, and
  no segment of the returned \<open>segments\<close> has a URL that contains one of them. This holds
  for every manifest, so also for one in which an excluded identifier occurs both in the
  URI of a KEY tag and in a segment URL.
\<close>

theorem parsePlaylist_excludes_sentinels:
  "((\<forall>i\<in>set [0..<length (splitLines playlist)].
       (startsWith (splitLines playlist ! i) ''#EXT-X-KEY'' \<longrightarrow>
          parseKey (splitLines playlist ! i) \<noteq> Inl TypeError) \<and>
       (startsWith (splitLines playlist ! i) ''#EXTINF:'' \<longrightarrow>
          Suc i < length (splitLines playlist)))
     \<longrightarrow> (\<exists>p. parsePlaylist playlist = Inr p))
   \<and> (parsePlaylist playlist = Inr r \<longrightarrow>
        (\<forall>k\<in>set (keys r). \<not> includes_str (uri k) ''099_Pluto_TV_OandO''
                              \<and> \<not> includes_str (uri k) ''829_Pluto_TV_OandO'')
      \<and> (\<forall>s\<in>set (segments r). \<not> includes_str (url s) ''099_Pluto_TV_OandO''
                              \<and> \<not> includes_str (url s) ''829_Pluto_TV_OandO''))"
proof (rule conjI)
  show "(\<forall>i\<in>set [0..<length (splitLines playlist)].
       (startsWith (splitLines playlist ! i) ''#EXT-X-KEY'' \<longrightarrow>
          parseKey (splitLines playlist ! i) \<noteq> Inl TypeError) \<and>
       (startsWith (splitLines playlist ! i) ''#EXTINF:'' \<longrightarrow>
          Suc i < length (splitLines playlist)))
     \<longrightarrow> (\<exists>p. parsePlaylist playlist = Inr p)"
    using parsePlaylistLoop_returns [of "[0..<length (splitLines playlist)]" "splitLines playlist"
        "\<lparr>segments = [], keys = []\<rparr>"]
    by (simp add: parsePlaylist_def Let_def)
next
  show "parsePlaylist playlist = Inr r \<longrightarrow>
        (\<forall>k\<in>set (keys r). \<not> includes_str (uri k) ''099_Pluto_TV_OandO''
                              \<and> \<not> includes_str (uri k) ''829_Pluto_TV_OandO'')
      \<and> (\<forall>s\<in>set (segments r). \<not> includes_str (url s) ''099_Pluto_TV_OandO''
                              \<and> \<not> includes_str (url s) ''829_Pluto_TV_OandO'')"
  proof (rule impI)
    assume "parsePlaylist playlist = Inr r"
    then have "parsePlaylistLoop (splitLines playlist) [0..<length (splitLines playlist)]
        \<lparr>segments = [], keys = []\<rparr> = Inr r"
      by (simp add: parsePlaylist_def Let_def)
    from parsePlaylistLoop_excluded [OF this]
    show "(\<forall>k\<in>set (keys r). \<not> includes_str (uri k) ''099_Pluto_TV_OandO''
                              \<and> \<not> includes_str (uri k) ''829_Pluto_TV_OandO'')
      \<and> (\<forall>s\<in>set (segments r). \<not> includes_str (url s) ''099_Pluto_TV_OandO''
                              \<and> \<not> includes_str (url s) ''829_Pluto_TV_OandO'')"
      by (simp add: excluded_def)
  qed
qed

theorem parsePlaylist_excludes_sentinels_witness:
  "(\<exists>p. parsePlaylist
     (''#EXT-X-KEY:METHOD=AES-128,URI='' @ [CHR 0x22] @
        ''https://k.example/v1/key/0123456789012345678901234EP1/a.key'' @ [CHR 0x22] @
        '',IV=0x0a'' @ [CHR 0x0A] @
      ''#EXTINF:5.005,'' @ [CHR 0x0A] @
      ''https://s.example/clip/720p/hls/seg-00001.ts'' @ [CHR 0x0A] @
      ''#EXT-X-KEY:METHOD=AES-128,URI='' @ [CHR 0x22] @
        ''https://k.example/v1/key/0123456789012345678901234_099_Pluto_TV_OandO/f.key'' @ [CHR 0x22] @
        '',IV=0x0f'' @ [CHR 0x0A] @
      ''#EXTINF:5.005,'' @ [CHR 0x0A] @
      ''https://s.example/099_Pluto_TV_OandO/720p/hls/seg-00002.ts'' @ [CHR 0x0A]) = Inr p)
   \<and> parsePlaylist
     (''#EXT-X-KEY:METHOD=AES-128,URI='' @ [CHR 0x22] @
        ''https://k.example/v1/key/0123456789012345678901234EP1/a.key'' @ [CHR 0x22] @
        '',IV=0x0a'' @ [CHR 0x0A] @
      ''#EXTINF:5.005,'' @ [CHR 0x0A] @
      ''https://s.example/clip/720p/hls/seg-00001.ts'' @ [CHR 0x0A] @
      ''#EXT-X-KEY:METHOD=AES-128,URI='' @ [CHR 0x22] @
        ''https://k.example/v1/key/0123456789012345678901234_099_Pluto_TV_OandO/f.key'' @ [CHR 0x22] @
        '',IV=0x0f'' @ [CHR 0x0A] @
      ''#EXTINF:5.005,'' @ [CHR 0x0A] @
      ''https://s.example/099_Pluto_TV_OandO/720p/hls/seg-00002.ts'' @ [CHR 0x0A])
   = Inr \<lparr>segments =
            [\<lparr>url = ''https://s.example/clip/720p/hls/seg-00001.ts'', index = ''00001'',
              key = Some 0\<rparr>],
          keys =
            [\<lparr>name = ''EP1'',
              uri = ''https://k.example/v1/key/0123456789012345678901234EP1/a.key'',
              iv = ''0a''\<rparr>]\<rparr>
   \<and> \<not> includes_str ''https://k.example/v1/key/0123456789012345678901234EP1/a.key'' ''099_Pluto_TV_OandO''
   \<and> \<not> includes_str ''https://k.example/v1/key/0123456789012345678901234EP1/a.key'' ''829_Pluto_TV_OandO''
   \<and> \<not> includes_str ''https://s.example/clip/720p/hls/seg-00001.ts'' ''099_Pluto_TV_OandO''
   \<and> \<not> includes_str ''https://s.example/clip/720p/hls/seg-00001.ts'' ''829_Pluto_TV_OandO''"
  (is "(\<exists>p. parsePlaylist ?M = Inr p) \<and> parsePlaylist ?M = Inr ?R \<and> ?C")
proof -
  have wf: "\<forall>i\<in>set [0..<length (splitLines ?M)].
       (startsWith (splitLines ?M ! i) ''#EXT-X-KEY'' \<longrightarrow>
          parseKey (splitLines ?M ! i) \<noteq> Inl TypeError) \<and>
       (startsWith (splitLines ?M ! i) ''#EXTINF:'' \<longrightarrow>
          Suc i < length (splitLines ?M))" by code_simp
  have h: "parsePlaylist ?M = Inr ?R" by code_simp
  note t = parsePlaylist_excludes_sentinels [of ?M ?R]
  from t wf have a: "\<exists>p. parsePlaylist ?M = Inr p" by blast
  from t h have "?C" by (simp del: includes_str.simps)
  with a h show ?thesis by blast
qed

section \<open>Segments refer to the key declared before them\<close>




section \<open>A segment without a key stops ProcessPlaylist at once\<close>



section \<open>A key URI needs six pieces\<close>

lemma parseKeyPart_other_name:
  "trim (fst (destructure part)) \<noteq> ''URI'' \<Longrightarrow> parseKeyPart k part = Inr k' \<Longrightarrow>
   uri k' = uri k \<and> name k' = name k"
  by (auto simp: parseKeyPart_def Let_def split: prod.splits if_splits option.splits)

lemma parseKeyParts_other_names:
  "\<forall>part\<in>set parts. trim (fst (destructure part)) \<noteq> ''URI'' \<Longrightarrow>
   parseKeyParts k parts = Inr k' \<Longrightarrow> uri k' = uri k \<and> name k' = name k"
proof (induction parts arbitrary: k)
  case Nil
  then show ?case by simp
next
  case (Cons a parts)
  from Cons.prems(2) obtain k1 where
    a: "parseKeyPart k a = Inr k1" and b: "parseKeyParts k1 parts = Inr k'"
    by (auto split: sum.splits)
  from Cons.prems(1) parseKeyPart_other_name [OF _ a] have "uri k1 = uri k \<and> name k1 = name k"
    by simp
  moreover from Cons.IH [OF _ b] Cons.prems(1) have "uri k' = uri k1 \<and> name k' = name k1"
    by simp
  ultimately show ?case by simp
qed

text \<open>
  A URI attribute is only read from a part of the line whose name is exactly \<open>URI\<close>.
  When it is the first attribute, its name is \<open>#EXT-X-KEY:URI\<close>: on the line below the
  quoted URI has four pieces, \<open>parseKey\<close> returns a key with empty \<open>uri\<close> and \<open>name\<close>, and
  \<open>parsePlaylist\<close> returns.
\<close>

theorem parseKey_first_attribute_URI_counterexample:
  "parseKey (''#EXT-X-KEY:URI='' @ [CHR 0x22] @ ''https://k.example/a.key'' @ [CHR 0x22] @
             '',METHOD=AES-128,IV=0x0a'')
     = Inr \<lparr>name = [], uri = [], iv = ''0a''\<rparr>
   \<and> parsePlaylist (''#EXT-X-KEY:URI='' @ [CHR 0x22] @ ''https://k.example/a.key'' @ [CHR 0x22] @
             '',METHOD=AES-128,IV=0x0a'')
     = Inr \<lparr>segments = [], keys = [\<lparr>name = [], uri = [], iv = ''0a''\<rparr>]\<rparr>
   \<and> length (split (CHR ''/'') ''https://k.example/a.key'') = 4"
  by code_simp

text \<open>
  Claim C10, amended. A KEY line with a comma-separated part whose name, the trimmed
  text before its first \<open>=\<close>, is exactly \<open>URI\<close> and whose value, trimmed and without
  its first and last character, has fewer than six pieces between slashes makes
  \<open>parseKey\<close> throw a TypeError. Hence, when \<open>parsePlaylist\<close> returns, every such part of
  every KEY line of the manifest has at least six pieces; this covers the excluded URIs
  too, since \<open>parseKey\<close> runs before the exclusion test. A line none of whose parts has
  the name \<open>URI\<close> gives, when \<open>parseKey\<close> returns, a key with empty \<open>uri\<close> and \<open>name\<close>.
\<close>

theorem parseKey_needs_six_path_segments:
  "(part \<in> set (split (CHR '','') line) \<and> destructure part = (kn, Some v) \<and> trim kn = ''URI''
      \<and> length (split (CHR ''/'') (slice_1_m1 (trim v))) < 6
      \<longrightarrow> parseKey line = Inl TypeError)
   \<and> (parsePlaylist playlist = Inr r \<longrightarrow>
        (\<forall>l\<in>set (splitLines playlist). startsWith l ''#EXT-X-KEY'' \<longrightarrow>
          (\<forall>p\<in>set (split (CHR '','') l). \<forall>n u. destructure p = (n, Some u) \<and> trim n = ''URI''
              \<longrightarrow> 6 \<le> length (split (CHR ''/'') (slice_1_m1 (trim u))))))
   \<and> ((\<forall>p\<in>set (split (CHR '','') line). trim (fst (destructure p)) \<noteq> ''URI'')
        \<and> parseKey line = Inr k \<longrightarrow> uri k = [] \<and> name k = [])"
proof (intro conjI)
  show "part \<in> set (split (CHR '','') line) \<and> destructure part = (kn, Some v) \<and> trim kn = ''URI''
      \<and> length (split (CHR ''/'') (slice_1_m1 (trim v))) < 6
      \<longrightarrow> parseKey line = Inl TypeError"
  proof
    assume a: "part \<in> set (split (CHR '','') line) \<and> destructure part = (kn, Some v) \<and> trim kn = ''URI''
      \<and> length (split (CHR ''/'') (slice_1_m1 (trim v))) < 6"
    then have "\<And>k. parseKeyPart k part = Inl TypeError"
      using parseKeyPart_short_URI by blast
    with a show "parseKey line = Inl TypeError"
      unfolding parseKey_def using parseKeyParts_short_URI by blast
  qed
next
  show "parsePlaylist playlist = Inr r \<longrightarrow>
        (\<forall>l\<in>set (splitLines playlist). startsWith l ''#EXT-X-KEY'' \<longrightarrow>
          (\<forall>p\<in>set (split (CHR '','') l). \<forall>n u. destructure p = (n, Some u) \<and> trim n = ''URI''
              \<longrightarrow> 6 \<le> length (split (CHR ''/'') (slice_1_m1 (trim u)))))"
  proof (intro impI ballI allI)
    fix l p n u
    assume r: "parsePlaylist playlist = Inr r"
      and l: "l \<in> set (splitLines playlist)" and k: "startsWith l ''#EXT-X-KEY''"
      and p: "p \<in> set (split (CHR '','') l)"
      and d: "destructure p = (n, Some u) \<and> trim n = ''URI''"
    let ?lines = "splitLines playlist"
    from l obtain i where i: "i < length ?lines" "?lines ! i = l"
      by (auto simp: in_set_conv_nth)
    from r have "parsePlaylistLoop ?lines [0..<length ?lines] \<lparr>segments = [], keys = []\<rparr> = Inr r"
      by (simp add: parsePlaylist_def Let_def)
    from parsePlaylistLoop_keys_parse [OF this, of i] i k
    obtain key where pk: "parseKey l = Inr key" by auto
    show "6 \<le> length (split (CHR ''/'') (slice_1_m1 (trim u)))"
    proof (rule ccontr)
      assume "\<not> 6 \<le> length (split (CHR ''/'') (slice_1_m1 (trim u)))"
      then have "length (split (CHR ''/'') (slice_1_m1 (trim u))) < 6" by simp
      with d have "\<And>k. parseKeyPart k p = Inl TypeError"
        using parseKeyPart_short_URI by blast
      with p have "parseKey l = Inl TypeError"
        unfolding parseKey_def using parseKeyParts_short_URI by blast
      with pk show False by simp
    qed
  qed
next
  show "(\<forall>p\<in>set (split (CHR '','') line). trim (fst (destructure p)) \<noteq> ''URI'')
        \<and> parseKey line = Inr k \<longrightarrow> uri k = [] \<and> name k = []"
    using parseKeyParts_other_names [of "split (CHR '','') line" "\<lparr>name = [], uri = [], iv = []\<rparr>" k]
    by (auto simp: parseKey_def)
qed

theorem parseKey_needs_six_path_segments_witness:
  "length (split (CHR ''/'') (slice_1_m1 (trim ([CHR 0x22] @ ''https://k.example/a.key'' @ [CHR 0x22])))) < 6
   \<and> parseKey (''#EXT-X-KEY:METHOD=AES-128,URI='' @ [CHR 0x22] @ ''https://k.example/a.key'' @ [CHR 0x22])
       = Inl TypeError
   \<and> parsePlaylist
        ((''#EXT-X-KEY:METHOD=AES-128,URI='' @ [CHR 0x22] @
           ''https://k.example/v1/key/0123456789012345678901234EP1/a.key'' @ [CHR 0x22]) @ [CHR 0x0A] @
         ''#EXTINF:5.005,'' @ [CHR 0x0A] @
         ''https://s.example/clip/720p/hls/seg-00001.ts'')
       = Inr \<lparr>segments =
                [\<lparr>url = ''https://s.example/clip/720p/hls/seg-00001.ts'', index = ''00001'',
                  key = Some 0\<rparr>],
              keys =
                [\<lparr>name = ''EP1'',
                  uri = ''https://k.example/v1/key/0123456789012345678901234EP1/a.key'',
                  iv = []\<rparr>]\<rparr>
   \<and> 6 \<le> length (split (CHR ''/'') (slice_1_m1 (trim ([CHR 0x22] @
           ''https://k.example/v1/key/0123456789012345678901234EP1/a.key'' @ [CHR 0x22]))))
   \<and> parseKey (''#EXT-X-KEY:URI='' @ [CHR 0x22] @ ''https://k.example/a.key'' @ [CHR 0x22] @
                '',METHOD=AES-128,IV=0x0a'')
       = Inr \<lparr>name = [], uri = [], iv = ''0a''\<rparr>
   \<and> uri \<lparr>name = [], uri = [], iv = ''0a''\<rparr> = []
   \<and> name \<lparr>name = [], uri = [], iv = ''0a''\<rparr> = []"
proof -
  let ?l3 = "''#EXT-X-KEY:URI='' @ [CHR 0x22] @ ''https://k.example/a.key'' @ [CHR 0x22] @
                '',METHOD=AES-128,IV=0x0a''"
  let ?K3 = "\<lparr>name = [], uri = [], iv = ''0a''\<rparr>"
  let ?v = "[CHR 0x22] @ ''https://k.example/a.key'' @ [CHR 0x22]"
  let ?part = "''URI='' @ ?v"
  let ?line = "''#EXT-X-KEY:METHOD=AES-128,URI='' @ ?v"
  let ?u = "[CHR 0x22] @ ''https://k.example/v1/key/0123456789012345678901234EP1/a.key'' @ [CHR 0x22]"
  let ?p = "''URI='' @ ?u"
  let ?l = "''#EXT-X-KEY:METHOD=AES-128,URI='' @ ?u"
  let ?M = "?l @ [CHR 0x0A] @ ''#EXTINF:5.005,'' @ [CHR 0x0A] @
         ''https://s.example/clip/720p/hls/seg-00001.ts''"
  let ?R = "\<lparr>segments =
                [\<lparr>url = ''https://s.example/clip/720p/hls/seg-00001.ts'', index = ''00001'',
                  key = Some 0\<rparr>],
              keys =
                [\<lparr>name = ''EP1'',
                  uri = ''https://k.example/v1/key/0123456789012345678901234EP1/a.key'',
                  iv = []\<rparr>]\<rparr>"
  have a1: "?part \<in> set (split (CHR '','') ?line)" by code_simp
  have a2: "destructure ?part = (''URI'', Some ?v)" by code_simp
  have a3: "trim ''URI'' = ''URI''" by code_simp
  have a4: "length (split (CHR ''/'') (slice_1_m1 (trim ?v))) < 6" by code_simp
  have b1: "parsePlaylist ?M = Inr ?R" by code_simp
  have b2: "?l \<in> set (splitLines ?M)" by code_simp
  have b3: "startsWith ?l ''#EXT-X-KEY''" by code_simp
  have b4: "?p \<in> set (split (CHR '','') ?l)" by code_simp
  have b5: "destructure ?p = (''URI'', Some ?u)" by code_simp
  note t = parseKey_needs_six_path_segments [of ?part ?line "''URI''" ?v ?M ?R]
  from t a1 a2 a3 a4 have c1: "parseKey ?line = Inl TypeError" by blast
  from t b1 b2 b3 b4 b5 a3 have c2: "6 \<le> length (split (CHR ''/'') (slice_1_m1 (trim ?u)))"
    by blast
  have d1: "\<forall>p\<in>set (split (CHR '','') ?l3). trim (fst (destructure p)) \<noteq> ''URI''" by code_simp
  have d2: "parseKey ?l3 = Inr ?K3" by code_simp
  from parseKey_needs_six_path_segments [of _ ?l3 _ _ _ _ ?K3] d1 d2
  have c3: "uri ?K3 = [] \<and> name ?K3 = []" by blast
  from a4 c1 b1 c2 d2 c3 show ?thesis by blast
qed

section \<open>The index of a segment\<close>

lemma split_not_Nil: "split sep s \<noteq> []"
  by (induction s) (auto simp: neq_Nil_conv)

lemma consHead_append: "xs \<noteq> [] \<Longrightarrow> consHead c (xs @ ys) = consHead c xs @ ys"
  by (cases xs) auto

lemma split_no_separator: "sep \<notin> set s \<Longrightarrow> split sep s = [s]"
  by (induction s) auto

lemma split_append_separator: "split sep (p @ sep # t) = split sep p @ split sep t"
  by (induction p) (auto simp: consHead_append split_not_Nil)

lemma last_split: "sep \<notin> set t \<Longrightarrow> last (split sep (p @ sep # t)) = t"
  by (simp add: split_append_separator split_no_separator)

lemma removeFirst_absent: "\<not> includes_str t pat \<Longrightarrow> removeFirst pat t = t"
  by (induction t) auto

lemma startsWith_append: "startsWith (pat @ b) pat"
  by (simp add: startsWith_def)

lemma removeFirst_first_occurrence:
  "\<forall>k<length a. \<not> startsWith (drop k (a @ pat @ b)) pat \<Longrightarrow> removeFirst pat (a @ pat @ b) = a @ b"
proof (induction a)
  case Nil
  show ?case
  proof (cases "pat @ b")
    case Nil
    then show ?thesis by simp
  next
    case (Cons c cs)
    have "startsWith (c # cs) pat" using startsWith_append [of pat b] Cons by simp
    then have "removeFirst pat (c # cs) = drop (length pat) (c # cs)" by simp
    with Cons [symmetric] show ?thesis by simp
  qed
next
  case (Cons x a)
  from Cons.prems have "\<not> startsWith (drop 0 ((x # a) @ pat @ b)) pat" by blast
  then have n: "\<not> startsWith (x # a @ pat @ b) pat" by simp
  have "\<forall>k<length a. \<not> startsWith (drop k (a @ pat @ b)) pat"
  proof (intro allI impI)
    fix k assume "k < length a"
    then have "Suc k < length (x # a)" by simp
    with Cons.prems have "\<not> startsWith (drop (Suc k) ((x # a) @ pat @ b)) pat" by blast
    then show "\<not> startsWith (drop k (a @ pat @ b)) pat" by simp
  qed
  from Cons.IH [OF this] n show ?case by simp
qed

lemma parsePlaylistLoop_index:
  "parsePlaylistLoop lines is st = Inr st' \<Longrightarrow>
   \<forall>s\<in>set (segments st). index s = segmentIndex (url s) \<Longrightarrow>
   \<forall>s\<in>set (segments st'). index s = segmentIndex (url s)"
proof (induction "is" arbitrary: st)
  case Nil
  then show ?case by simp
next
  case (Cons a "is")
  from Cons.prems(1) obtain st1 where
    s1: "parsePlaylistLine lines a st = Inr st1" and s2: "parsePlaylistLoop lines is st1 = Inr st'"
    by (auto split: sum.splits)
  from parsePlaylistLine_cases [OF s1] Cons.prems(2)
  have "\<forall>s\<in>set (segments st1). index s = segmentIndex (url s)"
    by (auto split: if_splits)
  from Cons.IH [OF s2 this] show ?case .
qed

lemma parseM3U8Loop_index:
  "parseM3U8Loop lines rest st = Inr st' \<Longrightarrow>
   \<forall>s\<in>set (segments st). index s = segmentIndex (url s) \<Longrightarrow>
   \<forall>s\<in>set (segments st'). index s = segmentIndex (url s)"
proof (induction rest arbitrary: st)
  case Nil
  then show ?case by simp
next
  case (Cons line rest)
  show ?case
  proof (cases "startsWith line ''#EXT-X-KEY''")
    case True
    with Cons.prems(1) obtain k where
      "parseM3U8Loop lines rest (st\<lparr>keys := keys st @ [k]\<rparr>) = Inr st'"
      by (auto split: sum.splits)
    from Cons.IH [OF this] Cons.prems(2) show ?thesis by simp
  next
    case nk: False
    show ?thesis
    proof (cases "startsWith line ''#EXTINF:''")
      case True
      let ?u = "trim (lines ! nat (indexOf lines line + 1))"
      from True nk Cons.prems(1) have
        "parseM3U8Loop lines rest (st\<lparr>segments := segments st @
            [\<lparr>url = ?u, index = segmentIndex ?u, key = latestKey (keys st)\<rparr>]\<rparr>) = Inr st'"
        by (auto simp: Let_def split: if_splits)
      from Cons.IH [OF this] Cons.prems(2) show ?thesis by simp
    next
      case False
      show ?thesis
      proof (cases "line = ''#EXT-X-DISCONTINUITY''")
        case True
        with nk False Cons.prems show ?thesis by simp
      next
        case nd: False
        with nk False Cons.prems(1) have "parseM3U8Loop lines rest st = Inr st'" by simp
        from Cons.IH [OF this Cons.prems(2)] show ?thesis .
      qed
    qed
  qed
qed

text \<open>
  The index is not empty when the URL has no hyphen: for the URL
  \<open>https://s.example/clip/720p/hls/seg00001.ts\<close>, which has none and is not excluded,
  the index is the whole URL without \<open>.ts\<close>.
\<close>

theorem segment_index_counterexample:
  "parsePlaylist (''#EXTINF:5.005,'' @ [CHR 0x0A] @ ''https://s.example/clip/720p/hls/seg00001.ts'')
   = Inr \<lparr>segments = [\<lparr>url = ''https://s.example/clip/720p/hls/seg00001.ts'',
                         index = ''https://s.example/clip/720p/hls/seg00001'', key = None\<rparr>],
          keys = []\<rparr>
   \<and> CHR ''-'' \<notin> set ''https://s.example/clip/720p/hls/seg00001.ts''
   \<and> \<not> excluded ''https://s.example/clip/720p/hls/seg00001.ts''"
  by code_simp

text \<open>
  Claim C8, amended. For every segment that \<open>parsePlaylist\<close> or \<open>parseM3U8\<close> returns,
  the index is the part of the URL after its last hyphen, with the first occurrence of
  \<open>.ts\<close> in that part removed; when the URL has no hyphen, it is the whole URL with the
  first occurrence of \<open>.ts\<close> removed. (What removing the first occurrence means is
  stated by \<open>removeFirst_absent\<close> and \<open>removeFirst_first_occurrence\<close> above.)
\<close>

theorem segment_index_after_last_dash:
  assumes "parsePlaylist playlist = Inr r \<or> parseM3U8 playlist = Inr r"
    and "s \<in> set (segments r)"
  shows "(CHR ''-'' \<notin> set (url s) \<longrightarrow> index s = removeFirst ''.ts'' (url s))
       \<and> (\<forall>p t. url s = p @ CHR ''-'' # t \<and> CHR ''-'' \<notin> set t \<longrightarrow> index s = removeFirst ''.ts'' t)"
proof -
  have "\<forall>s\<in>set (segments r). index s = segmentIndex (url s)"
    using assms(1)
  proof
    assume "parsePlaylist playlist = Inr r"
    then have "parsePlaylistLoop (splitLines playlist) [0..<length (splitLines playlist)]
        \<lparr>segments = [], keys = []\<rparr> = Inr r"
      by (simp add: parsePlaylist_def Let_def)
    from parsePlaylistLoop_index [OF this] show ?thesis by simp
  next
    assume "parseM3U8 playlist = Inr r"
    then have "parseM3U8Loop (splitLines playlist) (splitLines playlist)
        \<lparr>segments = [], keys = []\<rparr> = Inr r"
      by (simp add: parseM3U8_def Let_def)
    from parseM3U8Loop_index [OF this] show ?thesis by simp
  qed
  with assms(2) have i: "index s = segmentIndex (url s)" by blast
  show ?thesis
  proof (intro conjI impI allI)
    assume "CHR ''-'' \<notin> set (url s)"
    with i show "index s = removeFirst ''.ts'' (url s)"
      by (simp add: segmentIndex_def split_no_separator)
  next
    fix p t assume "url s = p @ CHR ''-'' # t \<and> CHR ''-'' \<notin> set t"
    with i show "index s = removeFirst ''.ts'' t"
      by (simp add: segmentIndex_def last_split)
  qed
qed

theorem segment_index_after_last_dash_witness:
  "parsePlaylist (''#EXTINF:5.005,'' @ [CHR 0x0A] @ ''https://s.example/clip/720p/hls/seg-00001.ts'')
   = Inr \<lparr>segments = [\<lparr>url = ''https://s.example/clip/720p/hls/seg-00001.ts'',
                         index = ''00001'', key = None\<rparr>],
          keys = []\<rparr>
   \<and> CHR ''-'' \<notin> set ''00001.ts''
   \<and> ''00001'' = removeFirst ''.ts'' ''00001.ts''"
  (is "parsePlaylist ?M = Inr ?R \<and> ?D \<and> ?C")
proof -
  let ?S = "\<lparr>url = ''https://s.example/clip/720p/hls/seg-00001.ts'', index = ''00001'', key = None\<rparr>"
  have h: "parsePlaylist ?M = Inr ?R" by code_simp
  have m: "?S \<in> set (segments ?R)" by simp
  have u: "url ?S = ''https://s.example/clip/720p/hls/seg'' @ CHR ''-'' # ''00001.ts''" by simp
  have d: "?D" by simp
  from h have "parsePlaylist ?M = Inr ?R \<or> parseM3U8 ?M = Inr ?R" by (rule disjI1)
  from segment_index_after_last_dash [OF this m] u d have "index ?S = removeFirst ''.ts'' ''00001.ts''"
    by blast
  then have "?C" by (simp only: MediaSegment.select_convs)
  with h d show ?thesis by blast
qed

section \<open>Discontinuity markers\<close>

text \<open>
  \<open>parseM3U8\<close> stops at a line that is exactly the marker, whatever follows it;
  \<open>parsePlaylist\<close> has no case for the marker and leaves its state as it is.
\<close>

lemma parseM3U8Loop_stops_at_discontinuity:
  "parseM3U8Loop lines (pre @ ''#EXT-X-DISCONTINUITY'' # post) st = parseM3U8Loop lines pre st"
proof (induction pre arbitrary: st)
  case Nil
  show ?case by (simp add: startsWith_def)
next
  case (Cons line pre)
  then show ?case by (simp add: Let_def split: sum.splits)
qed

lemma parsePlaylistLine_discontinuity:
  "lines ! i = ''#EXT-X-DISCONTINUITY'' \<Longrightarrow> parsePlaylistLine lines i st = Inr st"
  by (simp add: parsePlaylistLine_def startsWith_def)

text \<open>
  Claim C2. Parsing should stop at the first \<open>#EXT-X-DISCONTINUITY\<close> line. On the
  manifest below, with one segment before the marker and one after it, \<open>parseM3U8\<close>
  returns the first segment only, and \<open>parsePlaylist\<close>, the parser that
  \<open>ProcessPlaylist\<close> uses, returns both.
\<close>

theorem parsePlaylist_ignores_discontinuity:
  "parsePlaylist
     (''#EXT-X-KEY:METHOD=AES-128,URI='' @ [CHR 0x22] @
        ''https://k.example/v1/key/0123456789012345678901234EP1/a.key'' @ [CHR 0x22] @
        '',IV=0x0a'' @ [CHR 0x0A] @
      ''#EXTINF:5.005,'' @ [CHR 0x0A] @
      ''https://s.example/clip/720p/hls/seg-00001.ts'' @ [CHR 0x0A] @
      ''#EXT-X-DISCONTINUITY'' @ [CHR 0x0A] @
      ''#EXTINF:4.004,'' @ [CHR 0x0A] @
      ''https://s.example/clip/720p/hls/seg-00002.ts'')
   = Inr \<lparr>segments =
            [\<lparr>url = ''https://s.example/clip/720p/hls/seg-00001.ts'', index = ''00001'', key = Some 0\<rparr>,
             \<lparr>url = ''https://s.example/clip/720p/hls/seg-00002.ts'', index = ''00002'', key = Some 0\<rparr>],
          keys =
            [\<lparr>name = ''EP1'', uri = ''https://k.example/v1/key/0123456789012345678901234EP1/a.key'', iv = ''0a''\<rparr>]\<rparr>
   \<and> parseM3U8
     (''#EXT-X-KEY:METHOD=AES-128,URI='' @ [CHR 0x22] @
        ''https://k.example/v1/key/0123456789012345678901234EP1/a.key'' @ [CHR 0x22] @
        '',IV=0x0a'' @ [CHR 0x0A] @
      ''#EXTINF:5.005,'' @ [CHR 0x0A] @
      ''https://s.example/clip/720p/hls/seg-00001.ts'' @ [CHR 0x0A] @
      ''#EXT-X-DISCONTINUITY'' @ [CHR 0x0A] @
      ''#EXTINF:4.004,'' @ [CHR 0x0A] @
      ''https://s.example/clip/720p/hls/seg-00002.ts'')
   = Inr \<lparr>segments =
            [\<lparr>url = ''https://s.example/clip/720p/hls/seg-00001.ts'', index = ''00001'', key = Some 0\<rparr>],
          keys =
            [\<lparr>name = ''EP1'', uri = ''https://k.example/v1/key/0123456789012345678901234EP1/a.key'', iv = ''0a''\<rparr>]\<rparr>"
  by code_simp

section \<open>The URI of a stream in a master playlist\<close>

text \<open>
  Claim C7. The URI of a stream should be the line after its own \<open>STREAM-INF\<close> line.
  \<open>parseMaster\<close> finds that line through \<open>lines.indexOf(line)\<close>, the first line
  equal to the current one: on the manifest below, whose two \<open>STREAM-INF\<close> lines are
  identical, both streams get the URI that follows the first of them, and
  \<open>backup/playlist.m3u8\<close> is lost.
\<close>

theorem parseMaster_identical_stream_lines:
  "(case parseMaster
       (''#EXTM3U'' @ [CHR 0x0A] @
        ''#EXT-X-STREAM-INF:PROGRAM-ID=1,BANDWIDTH=1200000'' @ [CHR 0x0A] @
        ''high/playlist.m3u8'' @ [CHR 0x0A] @
        ''#EXT-X-STREAM-INF:PROGRAM-ID=1,BANDWIDTH=1200000'' @ [CHR 0x0A] @
        ''backup/playlist.m3u8'') of
      Inl e \<Rightarrow> []
    | Inr p \<Rightarrow> map (\<lambda>stream. (stream ''bandwidth'', stream ''uri'')) (streams p))
   = [(Some ''1200000'', Some ''high/playlist.m3u8''), (Some ''1200000'', Some ''high/playlist.m3u8'')]"
  by code_simp

section \<open>A segment whose file exists\<close>

lemma processSegments_append:
  "processSegments E ShowName ks (xs @ ys) w =
     (case processSegments E ShowName ks xs w of
        (Some e, w') \<Rightarrow> (Some e, w')
      | (None, w') \<Rightarrow> processSegments E ShowName ks ys w')"
  by (induction xs arbitrary: w) (auto split: prod.splits option.splits)

lemma processSegment_existing:
  assumes "key s = Some r"
    and "mkdirOk E (segmentDirectory E ShowName (ks ! r) s)"
    and "httpGet E (url s) \<noteq> None" and "httpGet E (uri (ks ! r)) \<noteq> None"
    and "files w (segmentPath E ShowName (ks ! r) s) \<noteq> None"
  shows "processSegment E ShowName ks s w =
           (None, w\<lparr>trace := trace w @ [Mkdir (segmentDirectory E ShowName (ks ! r) s),
                                          GetSegment (url s), GetKey (uri (ks ! r))]\<rparr>)"
  using assms by (auto simp: processSegment_def Let_def emit_def)

lemma processSegment_existing_mkdir_fails:
  assumes "key s = Some r"
    and "\<not> mkdirOk E (segmentDirectory E ShowName (ks ! r) s)"
  shows "processSegment E ShowName ks s w =
           (Some IOError, w\<lparr>trace := trace w @ [Mkdir (segmentDirectory E ShowName (ks ! r) s)]\<rparr>)"
  using assms by (auto simp: processSegment_def Let_def emit_def)

lemma processSegment_existing_segment_fails:
  assumes "key s = Some r"
    and "mkdirOk E (segmentDirectory E ShowName (ks ! r) s)"
    and "httpGet E (url s) = None"
  shows "processSegment E ShowName ks s w =
           (Some DownloadError, w\<lparr>trace := trace w @ [Mkdir (segmentDirectory E ShowName (ks ! r) s),
                                          GetSegment (url s)]\<rparr>)"
  using assms by (auto simp: processSegment_def Let_def emit_def)

lemma processSegment_existing_key_fails:
  assumes "key s = Some r"
    and "mkdirOk E (segmentDirectory E ShowName (ks ! r) s)"
    and "httpGet E (url s) \<noteq> None" and "httpGet E (uri (ks ! r)) = None"
  shows "processSegment E ShowName ks s w =
           (Some DownloadError, w\<lparr>trace := trace w @ [Mkdir (segmentDirectory E ShowName (ks ! r) s),
                                          GetSegment (url s), GetKey (uri (ks ! r))]\<rparr>)"
  using assms by (auto simp: processSegment_def Let_def emit_def)

text \<open>
  The segment and its key are requested although the file exists: on a playlist with one
  segment whose file is on disk, the run ends without error and its events are the
  \<open>mkdir\<close>, the request for the segment and the request for the key.
\<close>

theorem ProcessPlaylist_fetches_existing_counterexample:
  "fst (ProcessPlaylist
      \<lparr>httpGet = (\<lambda>u. Some [0x47]),
        pathJoin = (\<lambda>ps. joinSlash (filter (\<lambda>p. p \<noteq> ''./'') ps)),
        mkdirOk = (\<lambda>d. True), writeOk = (\<lambda>f. True),
        decipher = (\<lambda>k v d. Some d)\<rparr>
      (''#EXT-X-KEY:METHOD=AES-128,URI='' @ [CHR 0x22] @
         ''https://k.example/v1/key/0123456789012345678901234EP1/a.key'' @ [CHR 0x22] @
         '',IV=0x0a'' @ [CHR 0x0A] @
       ''#EXTINF:5.005,'' @ [CHR 0x0A] @
       ''https://s.example/clip/720p/hls/seg-00001.ts'')
      ''Show''
      \<lparr>files = [''Show/EP1/hls/seg-00001.ts'' \<mapsto> [0x47]], trace = []\<rparr>) = None
   \<and> trace (snd (ProcessPlaylist
      \<lparr>httpGet = (\<lambda>u. Some [0x47]),
        pathJoin = (\<lambda>ps. joinSlash (filter (\<lambda>p. p \<noteq> ''./'') ps)),
        mkdirOk = (\<lambda>d. True), writeOk = (\<lambda>f. True),
        decipher = (\<lambda>k v d. Some d)\<rparr>
      (''#EXT-X-KEY:METHOD=AES-128,URI='' @ [CHR 0x22] @
         ''https://k.example/v1/key/0123456789012345678901234EP1/a.key'' @ [CHR 0x22] @
         '',IV=0x0a'' @ [CHR 0x0A] @
       ''#EXTINF:5.005,'' @ [CHR 0x0A] @
       ''https://s.example/clip/720p/hls/seg-00001.ts'')
      ''Show''
      \<lparr>files = [''Show/EP1/hls/seg-00001.ts'' \<mapsto> [0x47]], trace = []\<rparr>))
     = [Mkdir ''Show/EP1/hls'',
        GetSegment ''https://s.example/clip/720p/hls/seg-00001.ts'',
        GetKey ''https://k.example/v1/key/0123456789012345678901234EP1/a.key'']"
  by code_simp

text \<open>
  Claim C3, amended. When the file of a segment exists at the time the segment is
  reached (the segment has a key, whose name is part of the path of the file),
  \<open>ProcessPlaylist\<close> first makes the directory, then requests the segment body,
  then requests the key bytes, and only then looks for the file. If all three steps
  succeed it skips the segment: it neither decrypts nor writes, the files stay as they
  are, no error is raised, and the run goes on with the segments that follow. If
  \<open>mkdir\<close> fails the run ends there with that error, and if one of the two requests
  fails the run ends there with a download error; in these cases too nothing is written.
  So the segment body and the key bytes are requested for a segment whose file exists.
\<close>

theorem ProcessPlaylist_skips_existing_after_fetching:
  assumes p: "parsePlaylist playlist = Inr p"
    and seg: "segments p = before @ s # after"
    and ok: "fst (processSegments E ShowName (keys p) before w) = None"
    and w1: "w1 = snd (processSegments E ShowName (keys p) before w)"
    and k: "key s = Some r"
    and ex: "files w1 (segmentPath E ShowName (keys p ! r) s) \<noteq> None"
  shows "(mkdirOk E (segmentDirectory E ShowName (keys p ! r) s)
            \<and> httpGet E (url s) \<noteq> None \<and> httpGet E (uri (keys p ! r)) \<noteq> None \<longrightarrow>
          ProcessPlaylist E playlist ShowName w =
            processSegments E ShowName (keys p) after
              (w1\<lparr>trace := trace w1 @ [Mkdir (segmentDirectory E ShowName (keys p ! r) s),
                                         GetSegment (url s), GetKey (uri (keys p ! r))]\<rparr>))
       \<and> (\<not> mkdirOk E (segmentDirectory E ShowName (keys p ! r) s) \<longrightarrow>
          ProcessPlaylist E playlist ShowName w =
            (Some IOError,
             w1\<lparr>trace := trace w1 @ [Mkdir (segmentDirectory E ShowName (keys p ! r) s)]\<rparr>))
       \<and> (mkdirOk E (segmentDirectory E ShowName (keys p ! r) s)
            \<and> httpGet E (url s) = None \<longrightarrow>
          ProcessPlaylist E playlist ShowName w =
            (Some DownloadError,
             w1\<lparr>trace := trace w1 @ [Mkdir (segmentDirectory E ShowName (keys p ! r) s),
                                        GetSegment (url s)]\<rparr>))
       \<and> (mkdirOk E (segmentDirectory E ShowName (keys p ! r) s)
            \<and> httpGet E (url s) \<noteq> None \<and> httpGet E (uri (keys p ! r)) = None \<longrightarrow>
          ProcessPlaylist E playlist ShowName w =
            (Some DownloadError,
             w1\<lparr>trace := trace w1 @ [Mkdir (segmentDirectory E ShowName (keys p ! r) s),
                                        GetSegment (url s), GetKey (uri (keys p ! r))]\<rparr>))"
proof -
  from ok w1 have b: "processSegments E ShowName (keys p) before w = (None, w1)"
    by (simp add: prod_eq_iff)
  have "ProcessPlaylist E playlist ShowName w =
          processSegments E ShowName (keys p) (before @ s # after) w"
    using p seg by (simp add: ProcessPlaylist_def)
  also have "\<dots> = processSegments E ShowName (keys p) (s # after) w1"
    using b by (simp add: processSegments_append)
  finally have run: "ProcessPlaylist E playlist ShowName w =
          processSegments E ShowName (keys p) (s # after) w1" .
  show ?thesis
  proof (intro conjI impI)
    assume a: "mkdirOk E (segmentDirectory E ShowName (keys p ! r) s)
            \<and> httpGet E (url s) \<noteq> None \<and> httpGet E (uri (keys p ! r)) \<noteq> None"
    then have "processSegment E ShowName (keys p) s w1 =
           (None, w1\<lparr>trace := trace w1 @ [Mkdir (segmentDirectory E ShowName (keys p ! r) s),
                                          GetSegment (url s), GetKey (uri (keys p ! r))]\<rparr>)"
      using processSegment_existing [OF k _ _ _ ex] by blast
    with run show "ProcessPlaylist E playlist ShowName w =
            processSegments E ShowName (keys p) after
              (w1\<lparr>trace := trace w1 @ [Mkdir (segmentDirectory E ShowName (keys p ! r) s),
                                         GetSegment (url s), GetKey (uri (keys p ! r))]\<rparr>)"
      by simp
  next
    assume "\<not> mkdirOk E (segmentDirectory E ShowName (keys p ! r) s)"
    from processSegment_existing_mkdir_fails [OF k this] run
    show "ProcessPlaylist E playlist ShowName w =
            (Some IOError,
             w1\<lparr>trace := trace w1 @ [Mkdir (segmentDirectory E ShowName (keys p ! r) s)]\<rparr>)"
      by simp
  next
    assume "mkdirOk E (segmentDirectory E ShowName (keys p ! r) s) \<and> httpGet E (url s) = None"
    then have "processSegment E ShowName (keys p) s w1 =
           (Some DownloadError,
            w1\<lparr>trace := trace w1 @ [Mkdir (segmentDirectory E ShowName (keys p ! r) s),
                                       GetSegment (url s)]\<rparr>)"
      using processSegment_existing_segment_fails [OF k] by blast
    with run show "ProcessPlaylist E playlist ShowName w =
            (Some DownloadError,
             w1\<lparr>trace := trace w1 @ [Mkdir (segmentDirectory E ShowName (keys p ! r) s),
                                        GetSegment (url s)]\<rparr>)"
      by simp
  next
    assume "mkdirOk E (segmentDirectory E ShowName (keys p ! r) s)
            \<and> httpGet E (url s) \<noteq> None \<and> httpGet E (uri (keys p ! r)) = None"
    then have "processSegment E ShowName (keys p) s w1 =
           (Some DownloadError,
            w1\<lparr>trace := trace w1 @ [Mkdir (segmentDirectory E ShowName (keys p ! r) s),
                                       GetSegment (url s), GetKey (uri (keys p ! r))]\<rparr>)"
      using processSegment_existing_key_fails [OF k] by blast
    with run show "ProcessPlaylist E playlist ShowName w =
            (Some DownloadError,
             w1\<lparr>trace := trace w1 @ [Mkdir (segmentDirectory E ShowName (keys p ! r) s),
                                        GetSegment (url s), GetKey (uri (keys p ! r))]\<rparr>)"
      by simp
  qed
qed

theorem ProcessPlaylist_skips_existing_after_fetching_witness:
  "\<forall>cipher. let E = \<lparr>httpGet = (\<lambda>u. Some [0x47, 0x40, 0x11, 0x10, 0, 0x42, 0xf0, 0x25,
                                         0, 0xc1, 0, 0, 1, 0xc0, 0, 0]),
             pathJoin = (\<lambda>ps. joinSlash (filter (\<lambda>p. p \<noteq> ''./'') ps)),
             mkdirOk = (\<lambda>d. True), writeOk = (\<lambda>f. True),
             decipher = cipher\<rparr>;
       M = ''#EXT-X-KEY:METHOD=AES-128,URI='' @ [CHR 0x22] @
             ''https://k.example/v1/key/0123456789012345678901234EP1/a.key'' @ [CHR 0x22] @
             '',IV=0x000102030405060708090a0b0c0d0e0f'' @ [CHR 0x0A] @
           ''#EXTINF:5.005,'' @ [CHR 0x0A] @
           ''https://s.example/clip/720p/hls/seg-00001.ts'' @ [CHR 0x0A] @
           ''#EXTINF:5.005,'' @ [CHR 0x0A] @
           ''https://s.example/clip/720p/hls/seg-00002.ts'';
       K = \<lparr>name = ''EP1'', uri = ''https://k.example/v1/key/0123456789012345678901234EP1/a.key'',
             iv = ''000102030405060708090a0b0c0d0e0f''\<rparr>;
       S1 = \<lparr>url = ''https://s.example/clip/720p/hls/seg-00001.ts'', index = ''00001'', key = Some 0\<rparr>;
       S2 = \<lparr>url = ''https://s.example/clip/720p/hls/seg-00002.ts'', index = ''00002'', key = Some 0\<rparr>;
       W = \<lparr>files = [''Show/EP1/hls/seg-00001.ts'' \<mapsto> [0x47], ''Show/EP1/hls/seg-00002.ts'' \<mapsto> [0x47]],
             trace = []\<rparr>;
       W1 = snd (processSegments E ''Show'' [K] [S1] W)
   in parsePlaylist M = Inr \<lparr>segments = [S1, S2], keys = [K]\<rparr>
      \<and> trace W1 = [Mkdir ''Show/EP1/hls'', GetSegment (url S1), GetKey (uri K)]
      \<and> files W1 (segmentPath E ''Show'' K S2) = Some [0x47]
      \<and> ProcessPlaylist E M ''Show'' W =
            (None, W1\<lparr>trace := trace W1 @ [Mkdir (segmentDirectory E ''Show'' K S2),
                                             GetSegment (url S2), GetKey (uri K)]\<rparr>)"
proof
  fix cipher :: "bytes \<Rightarrow> bytes \<Rightarrow> bytes \<Rightarrow> bytes option"
  let ?E = "\<lparr>httpGet = (\<lambda>u. Some [0x47, 0x40, 0x11, 0x10, 0, 0x42, 0xf0, 0x25,
                                         0, 0xc1, 0, 0, 1, 0xc0, 0, 0]),
             pathJoin = (\<lambda>ps. joinSlash (filter (\<lambda>p. p \<noteq> ''./'') ps)),
             mkdirOk = (\<lambda>d. True), writeOk = (\<lambda>f. True),
             decipher = cipher\<rparr>"
  let ?M = "''#EXT-X-KEY:METHOD=AES-128,URI='' @ [CHR 0x22] @
             ''https://k.example/v1/key/0123456789012345678901234EP1/a.key'' @ [CHR 0x22] @
             '',IV=0x000102030405060708090a0b0c0d0e0f'' @ [CHR 0x0A] @
           ''#EXTINF:5.005,'' @ [CHR 0x0A] @
           ''https://s.example/clip/720p/hls/seg-00001.ts'' @ [CHR 0x0A] @
           ''#EXTINF:5.005,'' @ [CHR 0x0A] @
           ''https://s.example/clip/720p/hls/seg-00002.ts''"
  let ?K = "\<lparr>name = ''EP1'', uri = ''https://k.example/v1/key/0123456789012345678901234EP1/a.key'',
             iv = ''000102030405060708090a0b0c0d0e0f''\<rparr>"
  let ?S1 = "\<lparr>url = ''https://s.example/clip/720p/hls/seg-00001.ts'', index = ''00001'', key = Some 0\<rparr>"
  let ?S2 = "\<lparr>url = ''https://s.example/clip/720p/hls/seg-00002.ts'', index = ''00002'', key = Some 0\<rparr>"
  let ?W = "\<lparr>files = [''Show/EP1/hls/seg-00001.ts'' \<mapsto> [0x47], ''Show/EP1/hls/seg-00002.ts'' \<mapsto> [0x47]],
             trace = []\<rparr>"
  let ?P = "\<lparr>segments = [?S1, ?S2], keys = [?K]\<rparr>"
  let ?W1 = "snd (processSegments ?E ''Show'' [?K] [?S1] ?W)"
  have p: "parsePlaylist ?M = Inr ?P" by code_simp
  have seg: "segments ?P = [?S1] @ ?S2 # []" by simp
  have ok: "fst (processSegments ?E ''Show'' (keys ?P) [?S1] ?W) = None" by code_simp
  have w1: "?W1 = snd (processSegments ?E ''Show'' (keys ?P) [?S1] ?W)" by simp
  have k: "key ?S2 = Some 0" by simp
  have mk: "mkdirOk ?E (segmentDirectory ?E ''Show'' (keys ?P ! 0) ?S2)" by simp
  have g1: "httpGet ?E (url ?S2) \<noteq> None" by simp
  have g2: "httpGet ?E (uri (keys ?P ! 0)) \<noteq> None" by simp
  have tr: "trace ?W1 = [Mkdir ''Show/EP1/hls'', GetSegment (url ?S1), GetKey (uri ?K)]" by code_simp
  have fl: "files ?W1 (segmentPath ?E ''Show'' ?K ?S2) = Some [0x47]" by code_simp
  then have ex: "files ?W1 (segmentPath ?E ''Show'' (keys ?P ! 0) ?S2) \<noteq> None" by simp
  note t = ProcessPlaylist_skips_existing_after_fetching [OF p seg ok w1 k ex]
  have c: "ProcessPlaylist ?E ?M ''Show'' ?W =
            (None, ?W1\<lparr>trace := trace ?W1 @ [Mkdir (segmentDirectory ?E ''Show'' ?K ?S2),
                                             GetSegment (url ?S2), GetKey (uri ?K)]\<rparr>)"
    using t mk g1 g2 by simp
  from p tr fl c show "let E = ?E; M = ?M; K = ?K; S1 = ?S1; S2 = ?S2; W = ?W;
       W1 = snd (processSegments E ''Show'' [K] [S1] W)
   in parsePlaylist M = Inr \<lparr>segments = [S1, S2], keys = [K]\<rparr>
      \<and> trace W1 = [Mkdir ''Show/EP1/hls'', GetSegment (url S1), GetKey (uri K)]
      \<and> files W1 (segmentPath E ''Show'' K S2) = Some [0x47]
      \<and> ProcessPlaylist E M ''Show'' W =
            (None, W1\<lparr>trace := trace W1 @ [Mkdir (segmentDirectory E ''Show'' K S2),
                                             GetSegment (url S2), GetKey (uri K)]\<rparr>)"
    unfolding Let_def by (intro conjI)
qed

section \<open>Key requests\<close>

lemma decryptFileToFile_trace:
  "decryptFileToFile E file outputPath k v w = (None, w') \<Longrightarrow>
   \<exists>d. trace w' = trace w @ [WriteFile outputPath d]"
  by (auto simp: decryptFileToFile_def emit_def split: option.splits if_splits)

lemma processSegment_key_request:
  assumes "processSegment E ShowName ks s w = (None, w')"
  shows "\<exists>r new. key s = Some r \<and> trace w' = trace w @ new \<and>
           filter (\<lambda>e. case e of GetKey u \<Rightarrow> True | _ \<Rightarrow> False) new = [GetKey (uri (ks ! r))]"
proof -
  from assms obtain r where r: "key s = Some r"
    by (cases "key s") (auto simp: processSegment_def)
  let ?k = "ks ! r"
  let ?pre = "[Mkdir (segmentDirectory E ShowName ?k s), GetSegment (url s), GetKey (uri ?k)]"
  let ?w3 = "w\<lparr>trace := trace w @ ?pre\<rparr>"
  from assms r have
    "(None, ?w3) = (None, w') \<or>
     (\<exists>body kb. decryptFileToFile E body (segmentPath E ShowName ?k s)
        (bufferFromHex (buf2hex kb)) (bufferFromHex (iv ?k)) ?w3 = (None, w'))"
    by (auto simp: processSegment_def Let_def emit_def split: if_splits option.splits)
  then have "\<exists>new. trace w' = trace w @ new \<and>
           filter (\<lambda>e. case e of GetKey u \<Rightarrow> True | _ \<Rightarrow> False) new = [GetKey (uri ?k)]"
  proof
    assume "(None, ?w3) = (None, w')"
    then have "trace w' = trace w @ ?pre" by auto
    then show ?thesis by simp
  next
    assume "\<exists>body kb. decryptFileToFile E body (segmentPath E ShowName ?k s)
        (bufferFromHex (buf2hex kb)) (bufferFromHex (iv ?k)) ?w3 = (None, w')"
    then obtain body kb where "decryptFileToFile E body (segmentPath E ShowName ?k s)
        (bufferFromHex (buf2hex kb)) (bufferFromHex (iv ?k)) ?w3 = (None, w')" by blast
    from decryptFileToFile_trace [OF this] obtain d where
      "trace w' = trace w @ (?pre @ [WriteFile (segmentPath E ShowName ?k s) d])" by auto
    then show ?thesis by (intro exI [of _ "?pre @ [WriteFile (segmentPath E ShowName ?k s) d]"]) simp
  qed
  with r show ?thesis by blast
qed

lemma processSegments_key_requests:
  "processSegments E ShowName ks ss w = (None, w') \<Longrightarrow>
   \<exists>new rs. trace w' = trace w @ new \<and> map key ss = map Some rs \<and>
     filter (\<lambda>e. case e of GetKey u \<Rightarrow> True | _ \<Rightarrow> False) new = map (\<lambda>r. GetKey (uri (ks ! r))) rs"
proof (induction ss arbitrary: w)
  case Nil
  then show ?case by simp
next
  case (Cons s ss)
  from Cons.prems obtain w1 where
    a: "processSegment E ShowName ks s w = (None, w1)" and
    b: "processSegments E ShowName ks ss w1 = (None, w')"
    by (auto split: prod.splits option.splits)
  from processSegment_key_request [OF a] obtain r n1 where
    r: "key s = Some r" "trace w1 = trace w @ n1"
       "filter (\<lambda>e. case e of GetKey u \<Rightarrow> True | _ \<Rightarrow> False) n1 = [GetKey (uri (ks ! r))]"
    by blast
  from Cons.IH [OF b] obtain n2 rs where
    n: "trace w' = trace w1 @ n2" "map key ss = map Some rs"
       "filter (\<lambda>e. case e of GetKey u \<Rightarrow> True | _ \<Rightarrow> False) n2 = map (\<lambda>r. GetKey (uri (ks ! r))) rs"
    by blast
  from r n have "trace w' = trace w @ (n1 @ n2) \<and> map key (s # ss) = map Some (r # rs) \<and>
     filter (\<lambda>e. case e of GetKey u \<Rightarrow> True | _ \<Rightarrow> False) (n1 @ n2) =
       map (\<lambda>r. GetKey (uri (ks ! r))) (r # rs)"
    by simp
  then show ?case by blast
qed

text \<open>
  The key is requested again for every segment: on a playlist with one key and two
  segments, both already on disk, the run ends without error, nothing is decrypted, and
  the key URI is requested twice, whatever the cipher would do.
\<close>

theorem ProcessPlaylist_key_not_cached_counterexample:
  "\<forall>cipher.
     let E = \<lparr>httpGet = (\<lambda>u. Some [0x47, 0x40, 0x11, 0x10, 0, 0x42, 0xf0, 0x25,
                                    0, 0xc1, 0, 0, 1, 0xc0, 0, 0]),
               pathJoin = (\<lambda>ps. joinSlash (filter (\<lambda>p. p \<noteq> ''./'') ps)),
               mkdirOk = (\<lambda>d. True), writeOk = (\<lambda>f. True),
               decipher = cipher\<rparr>;
         M = ''#EXT-X-KEY:METHOD=AES-128,URI='' @ [CHR 0x22] @
               ''https://k.example/v1/key/0123456789012345678901234EP1/a.key'' @ [CHR 0x22] @
               '',IV=0x000102030405060708090a0b0c0d0e0f'' @ [CHR 0x0A] @
             ''#EXTINF:5.005,'' @ [CHR 0x0A] @
             ''https://s.example/clip/720p/hls/seg-00001.ts'' @ [CHR 0x0A] @
             ''#EXTINF:5.005,'' @ [CHR 0x0A] @
             ''https://s.example/clip/720p/hls/seg-00002.ts'';
         W = \<lparr>files = [''Show/EP1/hls/seg-00001.ts'' \<mapsto> [0x47],
                        ''Show/EP1/hls/seg-00002.ts'' \<mapsto> [0x47]],
               trace = []\<rparr>
     in fst (ProcessPlaylist E M ''Show'' W) = None
      \<and> trace (snd (ProcessPlaylist E M ''Show'' W))
          = [Mkdir ''Show/EP1/hls'',
             GetSegment ''https://s.example/clip/720p/hls/seg-00001.ts'',
             GetKey ''https://k.example/v1/key/0123456789012345678901234EP1/a.key'',
             Mkdir ''Show/EP1/hls'',
             GetSegment ''https://s.example/clip/720p/hls/seg-00002.ts'',
             GetKey ''https://k.example/v1/key/0123456789012345678901234EP1/a.key'']"
proof
  fix cipher :: "bytes \<Rightarrow> bytes \<Rightarrow> bytes \<Rightarrow> bytes option"
  show "let E = \<lparr>httpGet = (\<lambda>u. Some [0x47, 0x40, 0x11, 0x10, 0, 0x42, 0xf0, 0x25,
                                    0, 0xc1, 0, 0, 1, 0xc0, 0, 0]),
               pathJoin = (\<lambda>ps. joinSlash (filter (\<lambda>p. p \<noteq> ''./'') ps)),
               mkdirOk = (\<lambda>d. True), writeOk = (\<lambda>f. True),
               decipher = cipher\<rparr>;
         M = ''#EXT-X-KEY:METHOD=AES-128,URI='' @ [CHR 0x22] @
               ''https://k.example/v1/key/0123456789012345678901234EP1/a.key'' @ [CHR 0x22] @
               '',IV=0x000102030405060708090a0b0c0d0e0f'' @ [CHR 0x0A] @
             ''#EXTINF:5.005,'' @ [CHR 0x0A] @
             ''https://s.example/clip/720p/hls/seg-00001.ts'' @ [CHR 0x0A] @
             ''#EXTINF:5.005,'' @ [CHR 0x0A] @
             ''https://s.example/clip/720p/hls/seg-00002.ts'';
         W = \<lparr>files = [''Show/EP1/hls/seg-00001.ts'' \<mapsto> [0x47],
                        ''Show/EP1/hls/seg-00002.ts'' \<mapsto> [0x47]],
               trace = []\<rparr>
     in fst (ProcessPlaylist E M ''Show'' W) = None
      \<and> trace (snd (ProcessPlaylist E M ''Show'' W))
          = [Mkdir ''Show/EP1/hls'',
             GetSegment ''https://s.example/clip/720p/hls/seg-00001.ts'',
             GetKey ''https://k.example/v1/key/0123456789012345678901234EP1/a.key'',
             Mkdir ''Show/EP1/hls'',
             GetSegment ''https://s.example/clip/720p/hls/seg-00002.ts'',
             GetKey ''https://k.example/v1/key/0123456789012345678901234EP1/a.key'']"
    by code_simp
qed

text \<open>
  Claim C4, amended. Key requests are not deduplicated. In a run of \<open>ProcessPlaylist\<close>
  that ends without error, every segment has a key, and the key requests of the run
  are, in order, one request per segment for the URI of the key the segment refers to;
  a key shared by \<open>n\<close> segments is requested \<open>n\<close> times.
\<close>

theorem ProcessPlaylist_requests_key_per_segment:
  assumes "parsePlaylist playlist = Inr p"
    and "fst (ProcessPlaylist E playlist ShowName w) = None"
  shows "\<exists>new rs. trace (snd (ProcessPlaylist E playlist ShowName w)) = trace w @ new
           \<and> map key (segments p) = map Some rs
           \<and> filter (\<lambda>e. case e of GetKey u \<Rightarrow> True | _ \<Rightarrow> False) new
               = map (\<lambda>r. GetKey (uri (keys p ! r))) rs"
proof -
  obtain w' where "processSegments E ShowName (keys p) (segments p) w = (None, w')"
    using assms by (cases "processSegments E ShowName (keys p) (segments p) w")
      (simp add: ProcessPlaylist_def)
  from processSegments_key_requests [OF this] this assms(1) show ?thesis
    by (simp add: ProcessPlaylist_def)
qed

theorem ProcessPlaylist_requests_key_per_segment_witness:
  "\<forall>cipher.
     let E = \<lparr>httpGet = (\<lambda>u. Some [0x47, 0x40, 0x11, 0x10, 0, 0x42, 0xf0, 0x25,
                                    0, 0xc1, 0, 0, 1, 0xc0, 0, 0]),
               pathJoin = (\<lambda>ps. joinSlash (filter (\<lambda>p. p \<noteq> ''./'') ps)),
               mkdirOk = (\<lambda>d. True), writeOk = (\<lambda>f. True),
               decipher = cipher\<rparr>;
         M = ''#EXT-X-KEY:METHOD=AES-128,URI='' @ [CHR 0x22] @
               ''https://k.example/v1/key/0123456789012345678901234EP1/a.key'' @ [CHR 0x22] @
               '',IV=0x000102030405060708090a0b0c0d0e0f'' @ [CHR 0x0A] @
             ''#EXTINF:5.005,'' @ [CHR 0x0A] @
             ''https://s.example/clip/720p/hls/seg-00001.ts'' @ [CHR 0x0A] @
             ''#EXTINF:5.005,'' @ [CHR 0x0A] @
             ''https://s.example/clip/720p/hls/seg-00002.ts'';
         K = \<lparr>name = ''EP1'', uri = ''https://k.example/v1/key/0123456789012345678901234EP1/a.key'',
               iv = ''000102030405060708090a0b0c0d0e0f''\<rparr>;
         S1 = \<lparr>url = ''https://s.example/clip/720p/hls/seg-00001.ts'', index = ''00001'', key = Some 0\<rparr>;
         S2 = \<lparr>url = ''https://s.example/clip/720p/hls/seg-00002.ts'', index = ''00002'', key = Some 0\<rparr>;
         W = \<lparr>files = [''Show/EP1/hls/seg-00001.ts'' \<mapsto> [0x47],
                        ''Show/EP1/hls/seg-00002.ts'' \<mapsto> [0x47]],
               trace = []\<rparr>
     in parsePlaylist M = Inr \<lparr>segments = [S1, S2], keys = [K]\<rparr>
      \<and> fst (ProcessPlaylist E M ''Show'' W) = None
      \<and> (\<exists>new rs. trace (snd (ProcessPlaylist E M ''Show'' W)) = trace W @ new
             \<and> map key [S1, S2] = map Some rs
             \<and> filter (\<lambda>e. case e of GetKey u \<Rightarrow> True | _ \<Rightarrow> False) new
                 = map (\<lambda>r. GetKey (uri ([K] ! r))) rs)"
proof
  fix cipher :: "bytes \<Rightarrow> bytes \<Rightarrow> bytes \<Rightarrow> bytes option"
  let ?E = "\<lparr>httpGet = (\<lambda>u. Some [0x47, 0x40, 0x11, 0x10, 0, 0x42, 0xf0, 0x25,
                                    0, 0xc1, 0, 0, 1, 0xc0, 0, 0]),
               pathJoin = (\<lambda>ps. joinSlash (filter (\<lambda>p. p \<noteq> ''./'') ps)),
               mkdirOk = (\<lambda>d. True), writeOk = (\<lambda>f. True),
               decipher = cipher\<rparr>"
  let ?M = "''#EXT-X-KEY:METHOD=AES-128,URI='' @ [CHR 0x22] @
               ''https://k.example/v1/key/0123456789012345678901234EP1/a.key'' @ [CHR 0x22] @
               '',IV=0x000102030405060708090a0b0c0d0e0f'' @ [CHR 0x0A] @
             ''#EXTINF:5.005,'' @ [CHR 0x0A] @
             ''https://s.example/clip/720p/hls/seg-00001.ts'' @ [CHR 0x0A] @
             ''#EXTINF:5.005,'' @ [CHR 0x0A] @
             ''https://s.example/clip/720p/hls/seg-00002.ts''"
  let ?K = "\<lparr>name = ''EP1'', uri = ''https://k.example/v1/key/0123456789012345678901234EP1/a.key'',
               iv = ''000102030405060708090a0b0c0d0e0f''\<rparr>"
  let ?S1 = "\<lparr>url = ''https://s.example/clip/720p/hls/seg-00001.ts'', index = ''00001'', key = Some 0\<rparr>"
  let ?S2 = "\<lparr>url = ''https://s.example/clip/720p/hls/seg-00002.ts'', index = ''00002'', key = Some 0\<rparr>"
  let ?W = "\<lparr>files = [''Show/EP1/hls/seg-00001.ts'' \<mapsto> [0x47],
                        ''Show/EP1/hls/seg-00002.ts'' \<mapsto> [0x47]],
               trace = []\<rparr>"
  let ?P = "\<lparr>segments = [?S1, ?S2], keys = [?K]\<rparr>"
  have p: "parsePlaylist ?M = Inr ?P" by code_simp
  have ok: "fst (ProcessPlaylist ?E ?M ''Show'' ?W) = None" by code_simp
  note t = ProcessPlaylist_requests_key_per_segment [OF p ok]
  have c: "\<exists>new rs. trace (snd (ProcessPlaylist ?E ?M ''Show'' ?W)) = trace ?W @ new
             \<and> map key [?S1, ?S2] = map Some rs
             \<and> filter (\<lambda>e. case e of GetKey u \<Rightarrow> True | _ \<Rightarrow> False) new
                 = map (\<lambda>r. GetKey (uri ([?K] ! r))) rs"
    using t unfolding Playlist.select_convs .
  from p ok c show "let E = ?E; M = ?M; K = ?K; S1 = ?S1; S2 = ?S2; W = ?W
     in parsePlaylist M = Inr \<lparr>segments = [S1, S2], keys = [K]\<rparr>
      \<and> fst (ProcessPlaylist E M ''Show'' W) = None
      \<and> (\<exists>new rs. trace (snd (ProcessPlaylist E M ''Show'' W)) = trace W @ new
             \<and> map key [S1, S2] = map Some rs
             \<and> filter (\<lambda>e. case e of GetKey u \<Rightarrow> True | _ \<Rightarrow> False) new
                 = map (\<lambda>r. GetKey (uri ([K] ! r))) rs)"
    unfolding Let_def by (intro conjI)
qed

end
